theory Spec2Isabelle
  imports Main
begin

section \<open>The capture pipeline of src/hooks/useCapture.ts\<close>

text \<open>
  The hook \<open>useCapture\<close> wraps one asynchronous function, \<open>mutationFn\<close>, that takes the
  text of a capture, asks the edge function \<open>classify-entry\<close> for a classification,
  reconciles the answer with the enum columns of the database and inserts either a
  regular entry or a goal with its companion history entry.

  The embedding follows the function line by line. Every constant that models a local
  variable of the source carries the name of that variable. What the function reads from
  its surroundings (the signed-in user, the two transports of the classifier, the clock,
  the answers of the database) is gathered in the record \<open>Env\<close>; what it does to its
  surroundings (the requests sent to the database, the toasts shown) is returned in the
  record \<open>Run\<close> together with the value or the error of the promise.
\<close>

subsection \<open>Strings of the runtime\<close>

text \<open>
  A string is the list of the bytes of its UTF-8 form. \<open>includes_str\<close> is the method
  \<open>includes\<close>, \<open>startsWith\<close> the method of that name (position 0); every string the
  source searches for is ASCII, and an ASCII byte occurs in UTF-8 only as itself.

  \<open>String.prototype.toLowerCase\<close> maps the letters \<open>A\<close> to \<open>Z\<close> to \<open>a\<close> to \<open>z\<close> and the
  Kelvin sign U+212A (the bytes E2 84 AA) to \<open>k\<close>. These are the only characters whose
  lower-case form is an ASCII letter. \<open>toLowerCase\<close> does both and keeps every other
  byte: the runtime turns other letters outside ASCII into other strings outside ASCII
  (the dotted capital I, U+0130, into \<open>i\<close> followed by U+0307), and the source compares
  lower-case strings with ASCII strings only.
\<close>

definition toLowerChar :: "char \<Rightarrow> char" where
  "toLowerChar c =
     (case map_of (zip ''ABCDEFGHIJKLMNOPQRSTUVWXYZ'' ''abcdefghijklmnopqrstuvwxyz'') c of
        Some l \<Rightarrow> l
      | None \<Rightarrow> c)"

fun startsWith :: "string \<Rightarrow> string \<Rightarrow> bool" where
  "startsWith s [] = True"
| "startsWith [] (p # ps) = False"
| "startsWith (c # s) (p # ps) = (c = p \<and> startsWith s ps)"

fun includes_str :: "string \<Rightarrow> string \<Rightarrow> bool" where
  "includes_str [] t = (t = [])"
| "includes_str (c # s) t = (startsWith (c # s) t \<or> includes_str s t)"

fun toLowerCase :: "string \<Rightarrow> string" where
  "toLowerCase [] = []"
| "toLowerCase (c # s) =
     (if c = CHR 0xE2 \<and> startsWith s [CHR 0x84, CHR 0xAA]
      then CHR ''k'' # toLowerCase (drop 2 s)
      else toLowerChar c # toLowerCase s)"

declare toLowerCase.simps(2) [simp del]

text \<open>
  Truthiness of a value that is a string, \<open>undefined\<close> or \<open>null\<close>: \<open>None\<close> stands for
  both \<open>undefined\<close> and \<open>null\<close>, which \<open>||\<close>, \<open>!\<close> and \<open>?.\<close> treat alike, and the
  empty string is falsy. \<open>orElse v d\<close> is \<open>v || d\<close> with a string default.
\<close>

definition truthy :: "string option \<Rightarrow> bool" where
  "truthy v = (case v of None \<Rightarrow> False | Some s \<Rightarrow> s \<noteq> [])"

definition orElse :: "string option \<Rightarrow> string \<Rightarrow> string" where
  "orElse v d = (if truthy v then the v else d)"

definition orNull :: "string option \<Rightarrow> string option" where
  "orNull v = (if truthy v then v else None)"

subsection \<open>The classification result\<close>

text \<open>
  The interface \<open>ClassificationResult\<close>. The classifier is a language model whose JSON
  answer is not validated, so the enum-typed fields are arbitrary strings here and every
  field may be missing or \<open>null\<close>. The checklist is an array of strings or of
  \<open>{text, done}\<close> objects; \<open>target\<close> is a number, modelled as an integer.
\<close>

datatype ChecklistItem = Plain string | Item string bool

record Metadata =
  summary :: "string option"
  tags :: "string list option"
  emoji :: "string option"
  target :: "int option"
  unit :: "string option"
  period_type :: "string option"
  due_date :: "string option"
  priority :: "string option"
  checklist :: "ChecklistItem list option"

record ClassificationResult =
  category_slug :: "string option"
  entry_type :: "string option"
  status :: "string option"
  metadata :: "Metadata option"

subsection \<open>The calendar\<close>

text \<open>
  A \<open>Date\<close> is used by the source only through its local calendar day: \<open>format\<close> prints
  \<open>yyyy-MM-dd\<close>, \<open>startOfWeek\<close> and \<open>startOfMonth\<close> move the day of the month. The
  record holds the local year, the month (1 to 12, as printed) and the day of the month.
\<close>

record Date =
  year :: int
  month :: int
  day :: int

definition isLeap :: "int \<Rightarrow> bool" where
  "isLeap y = (y mod 4 = 0 \<and> (y mod 100 \<noteq> 0 \<or> y mod 400 = 0))"

definition daysInMonth :: "int \<Rightarrow> int \<Rightarrow> int" where
  "daysInMonth y m =
     (if m = 2 then (if isLeap y then 29 else 28)
      else if m = 4 \<or> m = 6 \<or> m = 9 \<or> m = 11 then 30
      else 31)"

definition validDate :: "Date \<Rightarrow> bool" where
  "validDate d = (1 \<le> month d \<and> month d \<le> 12 \<and> 1 \<le> day d \<and> day d \<le> daysInMonth (year d) (month d))"

text \<open>The number of days from 1 January of year 1 to the first day of a year and of a month.\<close>

definition daysBeforeYear :: "int \<Rightarrow> int" where
  "daysBeforeYear y = 365 * (y - 1) + (y - 1) div 4 - (y - 1) div 100 + (y - 1) div 400"

definition daysBeforeMonth :: "int \<Rightarrow> int \<Rightarrow> int" where
  "daysBeforeMonth y m =
     (if m = 1 then 0 else if m = 2 then 31 else if m = 3 then 59 else if m = 4 then 90
      else if m = 5 then 120 else if m = 6 then 151 else if m = 7 then 181
      else if m = 8 then 212 else if m = 9 then 243 else if m = 10 then 273
      else if m = 11 then 304 else 334)
     + (if 2 < m \<and> isLeap y then 1 else 0)"

definition dayNumber :: "Date \<Rightarrow> int" where
  "dayNumber d = daysBeforeYear (year d) + daysBeforeMonth (year d) (month d) + day d"

text \<open>
  \<open>Date.prototype.getDay\<close>: 0 is Sunday, 1 is Monday; 1 January of year 1 (day number 1)
  is a Monday in the proleptic Gregorian calendar.
\<close>

definition getDay :: "Date \<Rightarrow> int" where
  "getDay d = dayNumber d mod 7"

text \<open>
  \<open>Date.prototype.setDate\<close> for an argument that is at most the day of the month it
  replaces: a value below 1 counts back from the last day of the previous month. One
  step back is enough for arguments above -27, and \<open>startOfWeek\<close> goes back 6 days at most.
\<close>

definition setDate :: "Date \<Rightarrow> int \<Rightarrow> Date" where
  "setDate d n =
     (if 1 \<le> n then d\<lparr>day := n\<rparr>
      else if month d = 1
        then \<lparr>year = year d - 1, month = 12, day = daysInMonth (year d - 1) 12 + n\<rparr>
        else \<lparr>year = year d, month = month d - 1,
              day = daysInMonth (year d) (month d - 1) + n\<rparr>)"

text \<open>
  \<open>startOfWeek(date, {weekStartsOn})\<close> and \<open>startOfMonth(date)\<close> of date-fns, which also
  reset the time of day, and \<open>format(date, 'yyyy-MM-dd')\<close>.
\<close>

definition startOfWeek :: "Date \<Rightarrow> int \<Rightarrow> Date" where
  "startOfWeek d weekStartsOn =
     (let dy = getDay d;
          diff = (if dy < weekStartsOn then 7 else 0) + dy - weekStartsOn
      in setDate d (day d - diff))"

definition startOfMonth :: "Date \<Rightarrow> Date" where
  "startOfMonth d = setDate d 1"

fun dec :: "nat \<Rightarrow> string" where
  "dec n =
     (if n < 10 then [''0123456789'' ! n]
      else dec (n div 10) @ [''0123456789'' ! (n mod 10)])"

declare dec.simps [simp del]

definition padStart :: "nat \<Rightarrow> string \<Rightarrow> string" where
  "padStart w s = replicate (w - length s) CHR ''0'' @ s"

definition format :: "Date \<Rightarrow> string" where
  "format d =
     padStart 4 (dec (nat (year d))) @ ''-'' @ padStart 2 (dec (nat (month d))) @ ''-''
     @ padStart 2 (dec (nat (day d)))"

subsection \<open>The surroundings of the function\<close>

datatype JsError = JsError (message: "string option")

record User =
  user_id :: string

text \<open>
  \<open>supabase.functions.invoke\<close> resolves to \<open>{data, error}\<close> or rejects; \<open>fetch\<close> resolves
  to a response or rejects, and \<open>response.json()\<close> may reject too. A rejection is \<open>Inl\<close>.
\<close>

record InvokeResult =
  inv_data :: "ClassificationResult option"
  inv_error :: "JsError option"

record Response =
  ok :: bool
  http_status :: nat
  json :: "JsError + ClassificationResult option"

text \<open>The payloads of the three inserts, field by field as the object literals of the source.\<close>

record GoalPayload =
  g_user_id :: string
  g_title :: string
  g_emoji :: string
  g_target :: int
  g_unit :: string
  g_period_type :: string
  g_period_start :: string
  g_current :: int
  g_category :: string

record TriggerMetadata =
  spread :: Metadata
  is_goal_trigger :: bool

record HistoryPayload =
  h_user_id :: string
  h_content :: string
  h_entry_type :: string
  h_metadata :: TriggerMetadata
  h_status :: string
  h_checklist :: "ChecklistItem list"

record EntryPayload =
  e_user_id :: string
  e_content :: string
  e_category_id :: "string option"
  e_entry_type :: string
  e_metadata :: Metadata
  e_status :: string
  e_due_date :: "string option"
  e_priority :: "string option"
  e_tags :: "string list"
  e_checklist :: "ChecklistItem list"

datatype DbRequest =
    InsertGoal GoalPayload
  | InsertHistory HistoryPayload
  | SelectCategory string
  | InsertEntry EntryPayload

text \<open>
  The database answers every request with \<open>{data, error}\<close>. A row is opaque to the
  function; of a category it reads \<open>id\<close> and \<open>name\<close>.
\<close>

type_synonym Row = string

record Category =
  cat_id :: string
  cat_name :: string

record 'a DbResponse =
  db_data :: "'a option"
  db_error :: "JsError option"

record Env =
  user :: "User option"
  invoke :: "string \<Rightarrow> JsError + InvokeResult"
  anon_key :: "string option"
  raw_fetch :: "string \<Rightarrow> JsError + Response"
  now :: Date
  goals_insert :: "GoalPayload \<Rightarrow> Row DbResponse"
  history_insert :: "HistoryPayload \<Rightarrow> Row DbResponse"
  categories_select :: "string \<Rightarrow> Category DbResponse"
  entries_insert :: "EntryPayload \<Rightarrow> Row DbResponse"

record CaptureResult =
  r_entry :: "Row option"
  r_type :: string
  r_categoryName :: "string option"

record Run =
  submitted :: "DbRequest list"
  toasts :: "string list"
  outcome :: "JsError + CaptureResult"

subsection \<open>Calling the classifier (lines 33 to 73)\<close>

text \<open>
  The first transport is the SDK; an \<open>error\<close> in its answer is thrown into the same
  \<open>catch\<close> block as a rejection. The block tries the raw \<open>fetch\<close>; when that fails too,
  the inner \<open>catch\<close> shows a toast built from the first error and the classification
  stays \<open>null\<close>.
\<close>

definition sdk :: "Env \<Rightarrow> string \<Rightarrow> JsError + ClassificationResult option" where
  "sdk env text =
     (case invoke env text of
        Inl err \<Rightarrow> Inl err
      | Inr res \<Rightarrow>
          (case inv_error res of
             Some aiError \<Rightarrow> Inl aiError
           | None \<Rightarrow> Inr (inv_data res)))"

definition fallback :: "Env \<Rightarrow> string \<Rightarrow> JsError + ClassificationResult option" where
  "fallback env text =
     (if \<not> truthy (anon_key env) then Inl (JsError (Some ''No anon key for fallback''))
      else case raw_fetch env text of
             Inl fallbackErr \<Rightarrow> Inl fallbackErr
           | Inr response \<Rightarrow>
               if \<not> ok response
               then Inl (JsError (Some (''Fallback HTTP error '' @ dec (http_status response))))
               else json response)"

definition classify :: "Env \<Rightarrow> string \<Rightarrow> ClassificationResult option \<times> string list" where
  "classify env text =
     (case sdk env text of
        Inr data \<Rightarrow> (data, [])
      | Inl err \<Rightarrow>
          (case fallback env text of
             Inr data \<Rightarrow> (data, [])
           | Inl fallbackErr \<Rightarrow>
               (None, [''Erro ao chamar IA: '' @ orElse (message err) ''Erro de rede''])))"

subsection \<open>Defaults and keyword overrides (lines 76 to 87)\<close>

definition targetSlug :: "ClassificationResult option \<Rightarrow> string" where
  "targetSlug classification = orElse (Option.bind classification category_slug) ''ideas''"

definition entryType :: "ClassificationResult option \<Rightarrow> string" where
  "entryType classification =
     toLowerCase (orElse (Option.bind classification entry_type) ''note'')"

text \<open>
  Line 78: the metadata object of the classification itself when there is one, a fresh
  default object otherwise.
\<close>

definition metadata_default :: "string \<Rightarrow> Metadata" where
  "metadata_default text =
     \<lparr>summary = Some text, tags = None, emoji = None, target = None, unit = None,
      period_type = None, due_date = None, priority = Some ''medium'', checklist = None\<rparr>"

definition metadata_initial :: "string \<Rightarrow> ClassificationResult option \<Rightarrow> Metadata" where
  "metadata_initial text classification =
     (case Option.bind classification metadata of
        Some m \<Rightarrow> m
      | None \<Rightarrow> metadata_default text)"

definition lowerText :: "string \<Rightarrow> string" where
  "lowerText text = toLowerCase text"

definition urgentKeyword :: "string \<Rightarrow> bool" where
  "urgentKeyword text =
     (includes_str (lowerText text) ''urgente'' \<or> includes_str (lowerText text) ''urgent''
      \<or> includes_str (lowerText text) ''pra ontem'')"

text \<open>Lines 83 to 87: the assignment to \<open>metadata.priority\<close>.\<close>

definition overridePriority ::
  "string \<Rightarrow> ClassificationResult option \<Rightarrow> Metadata \<Rightarrow> Metadata" where
  "overridePriority text classification m =
     (if urgentKeyword text then m\<lparr>priority := Some ''urgent''\<rparr>
      else if classification = None \<and> \<not> truthy (priority m) then m\<lparr>priority := Some ''medium''\<rparr>
      else m)"

definition metadata_final :: "string \<Rightarrow> ClassificationResult option \<Rightarrow> Metadata" where
  "metadata_final text classification =
     overridePriority text classification (metadata_initial text classification)"

text \<open>
  The assignment writes into the object that \<open>metadata\<close> refers to. When the
  classification has a metadata object, that is the classification's own object, so the
  classification the caller holds is changed; the default object is not reachable from it.
\<close>

definition classification_after ::
  "string \<Rightarrow> ClassificationResult option \<Rightarrow> ClassificationResult option" where
  "classification_after text classification =
     (case classification of
        None \<Rightarrow> None
      | Some c \<Rightarrow>
          (case metadata c of
             None \<Rightarrow> Some c
           | Some m \<Rightarrow> Some (c\<lparr>metadata := Some (overridePriority text classification m)\<rparr>)))"

subsection \<open>Goals (lines 90 to 146)\<close>

definition periodType :: "Metadata \<Rightarrow> string" where
  "periodType m =
     (let pt = toLowerCase (orElse (period_type m) ''weekly'')
      in if pt \<notin> set [''daily'', ''weekly'', ''monthly''] then ''weekly'' else pt)"

definition periodStart :: "Date \<Rightarrow> string \<Rightarrow> Date" where
  "periodStart nw pt =
     (if pt = ''weekly'' then startOfWeek nw 1
      else if pt = ''monthly'' then startOfMonth nw
      else nw)"

text \<open>\<open>metadata.target || 1\<close>: zero is falsy. An array is always truthy.\<close>

definition targetOr :: "int option \<Rightarrow> int \<Rightarrow> int" where
  "targetOr v d = (case v of None \<Rightarrow> d | Some n \<Rightarrow> if n = 0 then d else n)"

definition arrayOr :: "'a list option \<Rightarrow> 'a list \<Rightarrow> 'a list" where
  "arrayOr v d = (case v of None \<Rightarrow> d | Some xs \<Rightarrow> xs)"

text \<open>The default emoji is U+1F3AF in UTF-8.\<close>

definition goalPayload :: "User \<Rightarrow> Date \<Rightarrow> string \<Rightarrow> ClassificationResult option \<Rightarrow> GoalPayload" where
  "goalPayload u nw text classification =
     (let m = metadata_final text classification; pt = periodType m
      in \<lparr>g_user_id = user_id u,
          g_title = orElse (summary m) text,
          g_emoji = orElse (emoji m) [CHR 0xF0, CHR 0x9F, CHR 0x8E, CHR 0xAF],
          g_target = targetOr (target m) 1,
          g_unit = orElse (unit m) ''unidade'',
          g_period_type = pt,
          g_period_start = format (periodStart nw pt),
          g_current = 0,
          g_category = orElse (Some (targetSlug classification)) ''ideas''\<rparr>)"

definition historyPayload :: "User \<Rightarrow> string \<Rightarrow> ClassificationResult option \<Rightarrow> HistoryPayload" where
  "historyPayload u text classification =
     (let m = metadata_final text classification
      in \<lparr>h_user_id = user_id u,
          h_content = text,
          h_entry_type = ''task'',
          h_metadata = \<lparr>spread = m, is_goal_trigger = True\<rparr>,
          h_status = ''pending'',
          h_checklist = arrayOr (checklist m) []\<rparr>)"

definition goalCategoryName :: "string \<Rightarrow> string" where
  "goalCategoryName pt =
     (if pt = ''weekly'' then ''Meta Semanal''
      else if pt = ''monthly'' then ''Meta Mensal''
      else ''Meta Di'' @ [CHR 0xC3, CHR 0xA1] @ ''ria'')"

subsection \<open>Regular entries (lines 148 to 216)\<close>

definition validTypes :: "string list" where
  "validTypes = [''task'', ''note'', ''insight'', ''bookmark'']"

definition validPriorities :: "string list" where
  "validPriorities = [''low'', ''medium'', ''high'', ''urgent'']"

definition validStatuses :: "string list" where
  "validStatuses = [''pending'', ''in_progress'', ''done'']"

definition finalEntryType :: "ClassificationResult option \<Rightarrow> string" where
  "finalEntryType classification =
     (if entryType classification \<notin> set validTypes then ''note''
      else entryType classification)"

definition finalPriority :: "Metadata \<Rightarrow> string option" where
  "finalPriority m =
     (let p = orNull (map_option toLowerCase (priority m))
      in if truthy p \<and> the p \<notin> set validPriorities then None else p)"

definition progressKeyword :: "string \<Rightarrow> bool" where
  "progressKeyword text =
     (startsWith (lowerText text) ''estou '' \<or> includes_str (lowerText text) ''fazendo''
      \<or> includes_str (lowerText text) ''andamento'')"

definition finalStatus :: "string \<Rightarrow> ClassificationResult option \<Rightarrow> string" where
  "finalStatus text classification =
     (let s = orElse (map_option toLowerCase (Option.bind classification status)) ''pending'';
          s' = (if s \<notin> set validStatuses then ''pending'' else s)
      in if progressKeyword text then ''in_progress'' else s')"

definition insertPayload ::
  "User \<Rightarrow> string \<Rightarrow> ClassificationResult option \<Rightarrow> string option \<Rightarrow> EntryPayload" where
  "insertPayload u text classification categoryId =
     (let m = metadata_final text classification
      in \<lparr>e_user_id = user_id u,
          e_content = text,
          e_category_id = categoryId,
          e_entry_type = finalEntryType classification,
          e_metadata = m,
          e_status = finalStatus text classification,
          e_due_date = orNull (due_date m),
          e_priority = finalPriority m,
          e_tags = arrayOr (tags m) [],
          e_checklist = arrayOr (checklist m) []\<rparr>)"

subsection \<open>The whole function\<close>

text \<open>
  Everything after the classification. The answer of the insert of the companion entry
  is awaited and dropped: the function reads nothing of it. The error of the category
  lookup is bound to \<open>catError\<close> and not read either.
\<close>

definition persist :: "Env \<Rightarrow> User \<Rightarrow> string \<Rightarrow> ClassificationResult option \<Rightarrow> Run" where
  "persist env u text classification =
     (if entryType classification = ''goal''
      then
        (let gp = goalPayload u (now env) text classification;
             goal = goals_insert env gp
         in case db_error goal of
              Some goalError \<Rightarrow>
                \<lparr>submitted = [InsertGoal gp], toasts = [], outcome = Inl goalError\<rparr>
            | None \<Rightarrow>
                (let hp = historyPayload u text classification;
                     ignored = history_insert env hp
                 in \<lparr>submitted = [InsertGoal gp, InsertHistory hp], toasts = [],
                     outcome = Inr \<lparr>r_entry = db_data goal, r_type = ''goal'',
                                    r_categoryName = Some (goalCategoryName (g_period_type gp))\<rparr>\<rparr>))
      else
        (let categories = categories_select env (targetSlug classification);
             categoryId = map_option cat_id (db_data categories);
             ip = insertPayload u text classification categoryId;
             entry = entries_insert env ip
         in case db_error entry of
              Some dbError \<Rightarrow>
                \<lparr>submitted = [SelectCategory (targetSlug classification), InsertEntry ip],
                 toasts = [], outcome = Inl dbError\<rparr>
            | None \<Rightarrow>
                \<lparr>submitted = [SelectCategory (targetSlug classification), InsertEntry ip],
                 toasts = [],
                 outcome = Inr \<lparr>r_entry = db_data entry, r_type = ''entry'',
                                r_categoryName = map_option cat_name (db_data categories)\<rparr>\<rparr>))"

definition mutationFn :: "Env \<Rightarrow> string \<Rightarrow> Run" where
  "mutationFn env text =
     (case user env of
        None \<Rightarrow>
          \<lparr>submitted = [], toasts = [], outcome = Inl (JsError (Some ''User not authenticated''))\<rparr>
      | Some u \<Rightarrow>
          (let (classification, shown) = classify env text;
               run = persist env u text classification
           in run\<lparr>toasts := shown @ toasts run\<rparr>))"

subsection \<open>Normalisation as one step\<close>

text \<open>
  All values that the function derives from the text and the classification before it
  talks to the database, together with the classification object as the assignment of
  lines 83 to 87 leaves it.
\<close>

record Sanitized =
  s_targetSlug :: string
  s_entryType :: string
  s_metadata :: Metadata
  s_periodType :: string
  s_finalEntryType :: string
  s_finalPriority :: "string option"
  s_finalStatus :: string

definition normalize ::
  "string \<Rightarrow> ClassificationResult option \<Rightarrow> ClassificationResult option \<times> Sanitized" where
  "normalize text classification =
     (classification_after text classification,
      \<lparr>s_targetSlug = targetSlug classification,
       s_entryType = entryType classification,
       s_metadata = metadata_final text classification,
       s_periodType = periodType (metadata_final text classification),
       s_finalEntryType = finalEntryType classification,
       s_finalPriority = finalPriority (metadata_final text classification),
       s_finalStatus = finalStatus text classification\<rparr>)"


subsection \<open>What the database accepts\<close>

text \<open>
  The check constraints of the database on the enum columns, as the comments of the
  source and the specification give them: \<open>entry_type\<close>, \<open>status\<close> and the nullable
  \<open>priority\<close> of the table \<open>entries\<close>, \<open>period_type\<close> of the table \<open>goals\<close>. The
  companion entry of a goal sets no \<open>priority\<close> column.
\<close>

definition accepted :: "DbRequest \<Rightarrow> bool" where
  "accepted rq =
     (case rq of
        InsertGoal g \<Rightarrow> g_period_type g \<in> set [''daily'', ''weekly'', ''monthly'']
      | InsertHistory h \<Rightarrow>
          h_entry_type h \<in> set [''task'', ''note'', ''insight'', ''bookmark'']
          \<and> h_status h \<in> set [''pending'', ''in_progress'', ''done'']
      | SelectCategory slug \<Rightarrow> True
      | InsertEntry e \<Rightarrow>
          e_entry_type e \<in> set [''task'', ''note'', ''insight'', ''bookmark'']
          \<and> e_status e \<in> set [''pending'', ''in_progress'', ''done'']
          \<and> (case e_priority e of
                None \<Rightarrow> True
              | Some p \<Rightarrow> p \<in> set [''low'', ''medium'', ''high'', ''urgent'']))"

text \<open>The priority column and the status column of the entries among some requests.\<close>

definition entryPriorities :: "DbRequest list \<Rightarrow> string option list" where
  "entryPriorities rqs = concat (map (\<lambda>rq. case rq of InsertEntry e \<Rightarrow> [e_priority e] | _ \<Rightarrow> []) rqs)"

definition entryStatuses :: "DbRequest list \<Rightarrow> string list" where
  "entryStatuses rqs = concat (map (\<lambda>rq. case rq of InsertEntry e \<Rightarrow> [e_status e] | _ \<Rightarrow> []) rqs)"

definition entryTypes :: "DbRequest list \<Rightarrow> string list" where
  "entryTypes rqs = concat (map (\<lambda>rq. case rq of InsertEntry e \<Rightarrow> [e_entry_type e] | _ \<Rightarrow> []) rqs)"

subsection \<open>Example surroundings\<close>

text \<open>
  A signed-in user, a database that accepts every insert and knows the four categories
  of the classifier prompt, and a clock at Thursday 5 November 2026. In \<open>env_offline\<close>
  both transports of the classifier are unreachable; in \<open>env_answering c\<close> the SDK
  answers \<open>c\<close>.
\<close>

definition example_categories :: "string \<Rightarrow> Category DbResponse" where
  "example_categories slug =
     (if slug \<in> set [''home'', ''work'', ''uni'', ''ideas'']
      then \<lparr>db_data = Some \<lparr>cat_id = ''id-'' @ slug, cat_name = slug\<rparr>, db_error = None\<rparr>
      else \<lparr>db_data = None, db_error = Some (JsError (Some ''no rows''))\<rparr>)"

definition env_offline :: Env where
  "env_offline =
     \<lparr>user = Some \<lparr>user_id = ''u1''\<rparr>,
      invoke = (\<lambda>text. Inl (JsError (Some ''Failed to fetch''))),
      anon_key = Some ''anon'',
      raw_fetch = (\<lambda>text. Inl (JsError (Some ''Failed to fetch''))),
      now = \<lparr>year = 2026, month = 11, day = 5\<rparr>,
      goals_insert = (\<lambda>p. \<lparr>db_data = Some ''goal row'', db_error = None\<rparr>),
      history_insert = (\<lambda>p. \<lparr>db_data = Some ''history row'', db_error = None\<rparr>),
      categories_select = example_categories,
      entries_insert = (\<lambda>p. \<lparr>db_data = Some ''entry row'', db_error = None\<rparr>)\<rparr>"

definition env_answering :: "ClassificationResult \<Rightarrow> Env" where
  "env_answering c =
     env_offline\<lparr>invoke := (\<lambda>text. Inr \<lparr>inv_data = Some c, inv_error = None\<rparr>)\<rparr>"

text \<open>
  Answers of the classifier: a finished task, a bookmark in upper case, a priority
  outside the enum, an answer without metadata, and the monthly goal of the
  specification's scenario.
\<close>

definition example_metadata :: Metadata where
  "example_metadata =
     \<lparr>summary = Some ''resumo'', tags = Some [''tag''], emoji = None, target = None, unit = None,
      period_type = None, due_date = None, priority = None, checklist = None\<rparr>"

definition example_done :: ClassificationResult where
  "example_done =
     \<lparr>category_slug = Some ''uni'', entry_type = Some ''task'', status = Some ''done'',
      metadata = Some example_metadata\<rparr>"

definition example_bookmark :: ClassificationResult where
  "example_bookmark =
     \<lparr>category_slug = Some ''work'', entry_type = Some ''BOOKMARK'', status = None,
      metadata = Some example_metadata\<rparr>"

definition example_asap :: ClassificationResult where
  "example_asap =
     \<lparr>category_slug = Some ''home'', entry_type = Some ''task'', status = Some ''pending'',
      metadata = Some (example_metadata\<lparr>priority := Some ''ASAP''\<rparr>)\<rparr>"

definition example_bare :: ClassificationResult where
  "example_bare =
     \<lparr>category_slug = Some ''ideas'', entry_type = Some ''note'', status = None, metadata = None\<rparr>"

definition example_goal :: ClassificationResult where
  "example_goal =
     \<lparr>category_slug = Some ''work'', entry_type = Some ''goal'', status = None,
      metadata = Some \<lparr>summary = None, tags = None, emoji = None, target = Some 10,
                       unit = Some ''km'', period_type = Some ''monthly'', due_date = None,
                       priority = None, checklist = None\<rparr>\<rparr>"


section \<open>Properties\<close>

subsection \<open>Strings\<close>

lemma startsWith_iff: "startsWith s t \<longleftrightarrow> (\<exists>b. s = t @ b)"
  by (induction s t rule: startsWith.induct) auto

lemma includes_str_iff: "includes_str s t \<longleftrightarrow> (\<exists>a b. s = a @ t @ b)"
proof (induction s)
  case Nil
  then show ?case by auto
next
  case (Cons c s)
  show ?case
  proof
    assume "includes_str (c # s) t"
    then consider "startsWith (c # s) t" | "includes_str s t" by auto
    then show "\<exists>a b. c # s = a @ t @ b"
    proof cases
      case 1
      then obtain b where "c # s = t @ b" by (auto simp: startsWith_iff)
      then have "c # s = [] @ t @ b" by simp
      then show ?thesis by blast
    next
      case 2
      then obtain a b where "s = a @ t @ b" using Cons.IH by auto
      then have "c # s = (c # a) @ t @ b" by simp
      then show ?thesis by blast
    qed
  next
    assume "\<exists>a b. c # s = a @ t @ b"
    then obtain a b where ab: "c # s = a @ t @ b" by auto
    show "includes_str (c # s) t"
    proof (cases a)
      case Nil
      with ab have "startsWith (c # s) t" by (auto simp: startsWith_iff)
      then show ?thesis by simp
    next
      case (Cons x a')
      with ab have "s = a' @ t @ b" by simp
      then have "includes_str s t" using Cons.IH by auto
      then show ?thesis by simp
    qed
  qed
qed

lemma includes_longer:
  assumes "includes_str s (t @ r)"
  shows "includes_str s t"
proof -
  from assms obtain a b where "s = a @ (t @ r) @ b" unfolding includes_str_iff by blast
  then have "s = a @ t @ (r @ b)" by simp
  then show ?thesis unfolding includes_str_iff by blast
qed

text \<open>The two branches of \<open>toLowerCase\<close> as conditional equations.\<close>

lemma toLowerCase_kelvin [simp]:
  "startsWith s [CHR 0x84, CHR 0xAA] \<Longrightarrow>
   toLowerCase (CHR 0xE2 # s) = CHR ''k'' # toLowerCase (drop 2 s)"
  by (simp add: toLowerCase.simps(2))

lemma toLowerCase_other [simp]:
  "\<not> (c = CHR 0xE2 \<and> startsWith s [CHR 0x84, CHR 0xAA]) \<Longrightarrow>
   toLowerCase (c # s) = toLowerChar c # toLowerCase s"
  by (simp only: toLowerCase.simps(2) if_False)

text \<open>
  Lowering goes byte by byte through a stretch without the byte E2, and through a
  concatenation whose second part does not begin inside a Kelvin sign. A segment whose
  lower-case form has neither \<open>k\<close> nor a byte of the Kelvin sign is lowered byte by byte
  wherever it stands in a text.
\<close>

lemma toLowerChar_fixes:
  "toLowerChar (CHR 0xE2) = CHR 0xE2"
  "toLowerChar (CHR 0x84) = CHR 0x84"
  "toLowerChar (CHR 0xAA) = CHR 0xAA"
  by (simp_all add: toLowerChar_def)

lemma toLowerCase_plain:
  "CHR 0xE2 \<notin> set k \<Longrightarrow> toLowerCase (k @ s) = map toLowerChar k @ toLowerCase s"
  by (induction k) auto

lemma startsWith_kelvin_append:
  assumes "b = [] \<or> (hd b \<noteq> CHR 0x84 \<and> hd b \<noteq> CHR 0xAA)"
  shows "startsWith (s @ b) [CHR 0x84, CHR 0xAA] = startsWith s [CHR 0x84, CHR 0xAA]"
proof (cases s)
  case Nil
  then show ?thesis using assms by (cases b) auto
next
  case (Cons x s')
  then show ?thesis using assms by (cases s'; cases b) auto
qed

lemma startsWith_drop_append:
  "startsWith s [x, y] \<Longrightarrow> drop 2 (s @ b) = drop 2 s @ b"
  by (cases s; cases "tl s") auto

lemma toLowerCase_append:
  assumes "b = [] \<or> (hd b \<noteq> CHR 0x84 \<and> hd b \<noteq> CHR 0xAA)"
  shows "toLowerCase (a @ b) = toLowerCase a @ toLowerCase b"
proof (induction a rule: toLowerCase.induct)
  case 1
  then show ?case by simp
next
  case (2 c s)
  show ?case
  proof (cases "c = CHR 0xE2 \<and> startsWith s [CHR 0x84, CHR 0xAA]")
    case True
    then have c: "c = CHR 0xE2" and st: "startsWith s [CHR 0x84, CHR 0xAA]" by blast+
    have st': "startsWith (s @ b) [CHR 0x84, CHR 0xAA]"
      using st startsWith_kelvin_append [OF assms, of s] by blast
    have "toLowerCase ((c # s) @ b) = CHR ''k'' # toLowerCase (drop 2 (s @ b))"
      unfolding c append_Cons by (rule toLowerCase_kelvin [OF st'])
    also have "drop 2 (s @ b) = drop 2 s @ b" by (rule startsWith_drop_append [OF st])
    also have "toLowerCase (drop 2 s @ b) = toLowerCase (drop 2 s) @ toLowerCase b"
      by (rule "2.IH"(1) [OF True])
    also have "CHR ''k'' # (toLowerCase (drop 2 s) @ toLowerCase b) =
               (CHR ''k'' # toLowerCase (drop 2 s)) @ toLowerCase b"
      by (simp only: append_Cons)
    also have "CHR ''k'' # toLowerCase (drop 2 s) = toLowerCase (c # s)"
      unfolding c by (rule toLowerCase_kelvin [OF st, symmetric])
    finally show ?thesis .
  next
    case False
    then have no': "\<not> (c = CHR 0xE2 \<and> startsWith (s @ b) [CHR 0x84, CHR 0xAA])"
      using startsWith_kelvin_append [OF assms, of s] by blast
    have "toLowerCase ((c # s) @ b) = toLowerChar c # toLowerCase (s @ b)"
      unfolding append_Cons by (rule toLowerCase_other [OF no'])
    also have "toLowerCase (s @ b) = toLowerCase s @ toLowerCase b"
      by (rule "2.IH"(2) [OF False])
    also have "toLowerChar c # (toLowerCase s @ toLowerCase b) =
               (toLowerChar c # toLowerCase s) @ toLowerCase b"
      by (simp only: append_Cons)
    also have "toLowerChar c # toLowerCase s = toLowerCase (c # s)"
      by (rule toLowerCase_other [OF False, symmetric])
    finally show ?thesis .
  qed
qed

lemma toLowerCase_bytewise:
  assumes "\<forall>d \<in> set (toLowerCase k). d \<notin> {CHR ''k'', CHR 0xE2, CHR 0x84, CHR 0xAA}"
  shows "toLowerCase k = map toLowerChar k
       \<and> (\<forall>c \<in> set k. c \<notin> {CHR 0xE2, CHR 0x84, CHR 0xAA})"
  using assms
proof (induction k)
  case Nil
  then show ?case by simp
next
  case (Cons c s)
  have nk: "\<not> (c = CHR 0xE2 \<and> startsWith s [CHR 0x84, CHR 0xAA])"
  proof
    assume a: "c = CHR 0xE2 \<and> startsWith s [CHR 0x84, CHR 0xAA]"
    then have c: "c = CHR 0xE2" and st: "startsWith s [CHR 0x84, CHR 0xAA]" by blast+
    have "toLowerCase (c # s) = CHR ''k'' # toLowerCase (drop 2 s)"
      unfolding c by (rule toLowerCase_kelvin [OF st])
    then have "CHR ''k'' \<in> set (toLowerCase (c # s))" by (simp only: list.set insertI1)
    with Cons.prems show False by blast
  qed
  have eq: "toLowerCase (c # s) = toLowerChar c # toLowerCase s"
    by (rule toLowerCase_other [OF nk])
  have sub: "set (toLowerCase s) \<subseteq> set (toLowerCase (c # s))"
    unfolding eq by (rule set_subset_Cons)
  have "\<forall>d \<in> set (toLowerCase s). d \<notin> {CHR ''k'', CHR 0xE2, CHR 0x84, CHR 0xAA}"
    using Cons.prems sub by blast
  then have ih: "toLowerCase s = map toLowerChar s"
    "\<forall>c \<in> set s. c \<notin> {CHR 0xE2, CHR 0x84, CHR 0xAA}"
    using Cons.IH by blast+
  have "toLowerChar c \<in> set (toLowerCase (c # s))" unfolding eq by (rule list.set_intros(1))
  with Cons.prems have tl: "toLowerChar c \<notin> {CHR 0xE2, CHR 0x84, CHR 0xAA}" by blast
  have c: "c \<notin> {CHR 0xE2, CHR 0x84, CHR 0xAA}"
  proof
    assume "c \<in> {CHR 0xE2, CHR 0x84, CHR 0xAA}"
    then have "toLowerChar c = c" using toLowerChar_fixes by blast
    with tl \<open>c \<in> {CHR 0xE2, CHR 0x84, CHR 0xAA}\<close> show False by simp
  qed
  have "toLowerCase (c # s) = map toLowerChar (c # s)" unfolding eq ih(1) by (simp only: list.map)
  moreover have "\<forall>x \<in> set (c # s). x \<notin> {CHR 0xE2, CHR 0x84, CHR 0xAA}"
    using c ih(2) by (simp only: list.set ball_simps) blast
  ultimately show ?case by blast
qed

lemma lowerText_segment:
  assumes "text = pre @ k @ post" and "toLowerCase k = kw" and "kw \<noteq> []"
    and "\<forall>d \<in> set kw. d \<notin> {CHR ''k'', CHR 0xE2, CHR 0x84, CHR 0xAA}"
  shows "lowerText text = toLowerCase pre @ kw @ toLowerCase post"
proof -
  have "\<forall>d \<in> set (toLowerCase k). d \<notin> {CHR ''k'', CHR 0xE2, CHR 0x84, CHR 0xAA}"
    unfolding assms(2) by (rule assms(4))
  from toLowerCase_bytewise [OF this]
  have bw: "toLowerCase k = map toLowerChar k"
    "\<forall>c \<in> set k. c \<notin> {CHR 0xE2, CHR 0x84, CHR 0xAA}" by blast+
  from assms(2,3) have ne: "k \<noteq> []" by auto
  then have "hd (k @ post) \<in> set k" by simp
  with bw(2) have "hd (k @ post) \<noteq> CHR 0x84 \<and> hd (k @ post) \<noteq> CHR 0xAA" by blast
  then have "k @ post = [] \<or> (hd (k @ post) \<noteq> CHR 0x84 \<and> hd (k @ post) \<noteq> CHR 0xAA)"
    by blast
  then have a: "toLowerCase (pre @ (k @ post)) = toLowerCase pre @ toLowerCase (k @ post)"
    by (rule toLowerCase_append)
  have "CHR 0xE2 \<notin> set k" using bw(2) by blast
  then have b: "toLowerCase (k @ post) = map toLowerChar k @ toLowerCase post"
    by (rule toLowerCase_plain)
  show ?thesis
    unfolding lowerText_def assms(1) a b bw(1) [symmetric] assms(2) ..
qed

lemma includes_lowerText:
  assumes "text = pre @ k @ post" and "toLowerCase k = kw" and "kw \<noteq> []"
    and "\<forall>d \<in> set kw. d \<notin> {CHR ''k'', CHR 0xE2, CHR 0x84, CHR 0xAA}"
  shows "includes_str (lowerText text) kw"
  unfolding includes_str_iff lowerText_segment [OF assms] by blast

lemma startsWith_lowerText:
  assumes "text = k @ post" and "toLowerCase k = kw" and "kw \<noteq> []"
    and "\<forall>d \<in> set kw. d \<notin> {CHR ''k'', CHR 0xE2, CHR 0x84, CHR 0xAA}"
  shows "startsWith (lowerText text) kw"
proof -
  from assms(1) have "text = [] @ k @ post" by simp
  from lowerText_segment [OF this assms(2,3,4)]
  have "lowerText text = kw @ toLowerCase post" by simp
  then show ?thesis unfolding startsWith_iff by blast
qed

text \<open>The other direction: a keyword found in the lower-case text comes from a segment.\<close>

lemma startsWith_toLowerCase_segment:
  assumes "startsWith (toLowerCase t) kw"
    and "\<forall>d \<in> set kw. d \<notin> {CHR ''k'', CHR 0xE2, CHR 0x84, CHR 0xAA}"
  shows "\<exists>k post. t = k @ post \<and> toLowerCase k = kw"
  using assms
proof (induction kw arbitrary: t)
  case Nil
  have "t = [] @ t \<and> toLowerCase [] = []" by simp
  then show ?case by blast
next
  case (Cons d kw)
  from Cons.prems(1) obtain c s where t: "t = c # s" by (cases t) auto
  have d: "d \<noteq> CHR ''k''" "d \<noteq> CHR 0xE2" using Cons.prems(2) by auto
  have nk: "\<not> (c = CHR 0xE2 \<and> startsWith s [CHR 0x84, CHR 0xAA])"
  proof
    assume a: "c = CHR 0xE2 \<and> startsWith s [CHR 0x84, CHR 0xAA]"
    then have c: "c = CHR 0xE2" and st: "startsWith s [CHR 0x84, CHR 0xAA]" by blast+
    have "toLowerCase t = CHR ''k'' # toLowerCase (drop 2 s)"
      unfolding t c by (rule toLowerCase_kelvin [OF st])
    with Cons.prems(1) have "CHR ''k'' = d" by (simp only: startsWith.simps)
    with d(1) show False by simp
  qed
  have eq: "toLowerCase t = toLowerChar c # toLowerCase s"
    unfolding t by (rule toLowerCase_other [OF nk])
  from Cons.prems(1) have cd: "toLowerChar c = d" and rest: "startsWith (toLowerCase s) kw"
    unfolding eq by (simp_all only: startsWith.simps)
  have "\<forall>d \<in> set kw. d \<notin> {CHR ''k'', CHR 0xE2, CHR 0x84, CHR 0xAA}"
    using Cons.prems(2) by simp
  from Cons.IH [OF rest this] obtain k post
    where kp: "s = k @ post" "toLowerCase k = kw" by blast
  have "c \<noteq> CHR 0xE2"
  proof
    assume "c = CHR 0xE2"
    then have "toLowerChar c = CHR 0xE2" by (simp only: toLowerChar_fixes)
    with cd d(2) show False by simp
  qed
  then have "\<not> (c = CHR 0xE2 \<and> startsWith k [CHR 0x84, CHR 0xAA])" by blast
  then have "toLowerCase (c # k) = toLowerChar c # toLowerCase k" by (rule toLowerCase_other)
  then have "toLowerCase (c # k) = d # kw" unfolding cd kp(2) .
  moreover have "t = (c # k) @ post" unfolding t kp(1) by simp
  ultimately show ?case by blast
qed

lemma includes_toLowerCase_segment:
  assumes "includes_str (toLowerCase t) kw"
    and "\<forall>d \<in> set kw. d \<notin> {CHR ''k'', CHR 0xE2, CHR 0x84, CHR 0xAA}"
  shows "\<exists>pre k post. t = pre @ k @ post \<and> toLowerCase k = kw"
  using assms(1)
proof (induction t rule: toLowerCase.induct)
  case 1
  then have "kw = []" by simp
  then have "[] = [] @ [] @ [] \<and> toLowerCase [] = kw" by simp
  then show ?case by (intro exI)
next
  case (2 c s)
  show ?case
  proof (cases "startsWith (toLowerCase (c # s)) kw")
    case True
    from startsWith_toLowerCase_segment [OF this assms(2)] obtain k post
      where "c # s = k @ post" "toLowerCase k = kw" by blast
    then have "c # s = [] @ k @ post \<and> toLowerCase k = kw" by simp
    then show ?thesis by (intro exI)
  next
    case nostart: False
    show ?thesis
    proof (cases "c = CHR 0xE2 \<and> startsWith s [CHR 0x84, CHR 0xAA]")
      case True
      then have c: "c = CHR 0xE2" and st: "startsWith s [CHR 0x84, CHR 0xAA]" by blast+
      have eq: "toLowerCase (c # s) = CHR ''k'' # toLowerCase (drop 2 s)"
        unfolding c by (rule toLowerCase_kelvin [OF st])
      from "2.prems" nostart have "includes_str (toLowerCase (drop 2 s)) kw"
        unfolding eq by (simp only: includes_str.simps) blast
      from "2.IH"(1) [OF True this] obtain pre k post
        where pk: "drop 2 s = pre @ k @ post" "toLowerCase k = kw" by blast
      have "s = take 2 s @ drop 2 s" by simp
      then have "c # s = (c # take 2 s @ pre) @ k @ post" unfolding pk(1) by simp
      with pk(2) have "c # s = (c # take 2 s @ pre) @ k @ post \<and> toLowerCase k = kw" by blast
      then show ?thesis by (intro exI)
    next
      case False
      have eq: "toLowerCase (c # s) = toLowerChar c # toLowerCase s"
        by (rule toLowerCase_other [OF False])
      from "2.prems" nostart have "includes_str (toLowerCase s) kw"
        unfolding eq by (simp only: includes_str.simps) blast
      from "2.IH"(2) [OF False this] obtain pre k post
        where pk: "s = pre @ k @ post" "toLowerCase k = kw" by blast
      then have "c # s = (c # pre) @ k @ post \<and> toLowerCase k = kw" by simp
      then show ?thesis by (intro exI)
    qed
  qed
qed

subsection \<open>The shape of a run\<close>

lemma mutationFn_no_user:
  "user env = None \<Longrightarrow>
   mutationFn env text =
     \<lparr>submitted = [], toasts = [], outcome = Inl (JsError (Some ''User not authenticated''))\<rparr>"
  by (simp add: mutationFn_def)

lemma mutationFn_user:
  "user env = Some u \<Longrightarrow>
   submitted (mutationFn env text) = submitted (persist env u text (fst (classify env text)))
   \<and> outcome (mutationFn env text) = outcome (persist env u text (fst (classify env text)))"
  by (simp add: mutationFn_def split_beta Let_def)

lemma persist_goal:
  assumes "entryType c = ''goal''"
  shows "submitted (persist env u text c) =
           InsertGoal (goalPayload u (now env) text c)
           # (case db_error (goals_insert env (goalPayload u (now env) text c)) of
                Some goalError \<Rightarrow> []
              | None \<Rightarrow> [InsertHistory (historyPayload u text c)])"
    and "outcome (persist env u text c) =
           (case db_error (goals_insert env (goalPayload u (now env) text c)) of
              Some goalError \<Rightarrow> Inl goalError
            | None \<Rightarrow>
                Inr \<lparr>r_entry = db_data (goals_insert env (goalPayload u (now env) text c)),
                     r_type = ''goal'',
                     r_categoryName =
                       Some (goalCategoryName (g_period_type (goalPayload u (now env) text c)))\<rparr>)"
  using assms by (simp_all add: persist_def Let_def split: option.splits)

lemma persist_regular:
  assumes "entryType c \<noteq> ''goal''"
  shows "submitted (persist env u text c) =
           [SelectCategory (targetSlug c),
            InsertEntry (insertPayload u text c
              (map_option cat_id (db_data (categories_select env (targetSlug c)))))]"
    and "outcome (persist env u text c) =
           (case db_error (entries_insert env (insertPayload u text c
                   (map_option cat_id (db_data (categories_select env (targetSlug c)))))) of
              Some dbError \<Rightarrow> Inl dbError
            | None \<Rightarrow>
                Inr \<lparr>r_entry = db_data (entries_insert env (insertPayload u text c
                       (map_option cat_id (db_data (categories_select env (targetSlug c)))))),
                     r_type = ''entry'',
                     r_categoryName =
                       map_option cat_name (db_data (categories_select env (targetSlug c)))\<rparr>)"
  using assms by (simp_all add: persist_def Let_def split: option.splits)

subsection \<open>Sanitised enum values\<close>

lemma finalEntryType_valid:
  "finalEntryType c \<in> set [''task'', ''note'', ''insight'', ''bookmark'']"
  by (simp add: finalEntryType_def validTypes_def)

lemma finalStatus_valid: "finalStatus text c \<in> set [''pending'', ''in_progress'', ''done'']"
  by (simp add: finalStatus_def validStatuses_def Let_def)

lemma finalPriority_valid:
  "(case finalPriority m of None \<Rightarrow> True
    | Some p \<Rightarrow> p \<in> set [''low'', ''medium'', ''high'', ''urgent''])"
  by (auto simp: finalPriority_def validPriorities_def Let_def orNull_def truthy_def
      split: option.splits)

lemma periodType_valid: "periodType m \<in> set [''daily'', ''weekly'', ''monthly'']"
  by (simp add: periodType_def Let_def)

lemma accepted_insertPayload: "accepted (InsertEntry (insertPayload u text c cid))"
  using finalEntryType_valid [of c] finalStatus_valid [of "text" c]
    finalPriority_valid [of "metadata_final text c"]
  by (simp add: accepted_def insertPayload_def Let_def)

lemma accepted_goalPayload: "accepted (InsertGoal (goalPayload u nw text c))"
  using periodType_valid [of "metadata_final text c"]
  by (simp add: accepted_def goalPayload_def Let_def)

lemma accepted_historyPayload: "accepted (InsertHistory (historyPayload u text c))"
  by (simp add: accepted_def historyPayload_def Let_def)

lemma accepted_persist: "list_all accepted (submitted (persist env u text c))"
proof (cases "entryType c = ''goal''")
  case True
  then show ?thesis
    using accepted_goalPayload accepted_historyPayload
    by (simp add: persist_goal split: option.splits)
next
  case False
  then show ?thesis
    using accepted_insertPayload by (simp add: persist_regular accepted_def)
qed

lemma entryPriorities_persist:
  "entryPriorities (submitted (persist env u text c)) =
     (if entryType c = ''goal'' then [] else [finalPriority (metadata_final text c)])"
  by (simp add: persist_goal persist_regular entryPriorities_def insertPayload_def Let_def
      split: option.splits)

lemma entryPriorities_regular:
  assumes "user env = Some u" and "entryType (fst (classify env text)) \<noteq> ''goal''"
  shows "entryPriorities (submitted (mutationFn env text)) =
         [finalPriority (metadata_final text (fst (classify env text)))]"
  using assms by (simp add: mutationFn_user persist_regular entryPriorities_def insertPayload_def Let_def)

lemma entryStatuses_persist:
  "entryStatuses (submitted (persist env u text c)) =
     (if entryType c = ''goal'' then [] else [finalStatus text c])"
  by (simp add: persist_goal persist_regular entryStatuses_def insertPayload_def Let_def
      split: option.splits)

lemma entryTypes_persist:
  "entryTypes (submitted (persist env u text c)) =
     (if entryType c = ''goal'' then [] else [finalEntryType c])"
  by (simp add: persist_goal persist_regular entryTypes_def insertPayload_def Let_def
      split: option.splits)

lemma classify_history_insert:
  "classify (env\<lparr>history_insert := h\<rparr>) text = classify env text"
  by (simp add: classify_def sdk_def fallback_def cong: sum.case_cong option.case_cong if_cong)

lemma sdk_fails_iff:
  "sdk env text = Inl err \<longleftrightarrow>
   invoke env text = Inl err \<or> (\<exists>res. invoke env text = Inr res \<and> inv_error res = Some err)"
  by (auto simp: sdk_def split: sum.splits option.splits)

lemma fallback_fails_iff:
  "fallback env text = Inl e \<longleftrightarrow>
     (\<not> truthy (anon_key env) \<and> e = JsError (Some ''No anon key for fallback''))
   \<or> (truthy (anon_key env) \<and> raw_fetch env text = Inl e)
   \<or> (\<exists>r. truthy (anon_key env) \<and> raw_fetch env text = Inr r \<and> \<not> ok r
          \<and> e = JsError (Some (''Fallback HTTP error '' @ dec (http_status r))))
   \<or> (\<exists>r. truthy (anon_key env) \<and> raw_fetch env text = Inr r \<and> ok r \<and> json r = Inl e)"
  by (auto simp: fallback_def split: sum.splits)

lemma classify_both_fail:
  assumes "sdk env text = Inl err" and "fallback env text = Inl fallbackErr"
  shows "classify env text =
         (None, [''Erro ao chamar IA: '' @ orElse (message err) ''Erro de rede''])"
  using assms by (simp add: classify_def)


subsection \<open>Keywords\<close>

lemma keywords_plain:
  "\<forall>d \<in> set ''urgente''. d \<notin> {CHR ''k'', CHR 0xE2, CHR 0x84, CHR 0xAA}"
  "\<forall>d \<in> set ''urgent''. d \<notin> {CHR ''k'', CHR 0xE2, CHR 0x84, CHR 0xAA}"
  "\<forall>d \<in> set ''pra ontem''. d \<notin> {CHR ''k'', CHR 0xE2, CHR 0x84, CHR 0xAA}"
  "\<forall>d \<in> set ''estou ''. d \<notin> {CHR ''k'', CHR 0xE2, CHR 0x84, CHR 0xAA}"
  "\<forall>d \<in> set ''fazendo''. d \<notin> {CHR ''k'', CHR 0xE2, CHR 0x84, CHR 0xAA}"
  "\<forall>d \<in> set ''andamento''. d \<notin> {CHR ''k'', CHR 0xE2, CHR 0x84, CHR 0xAA}"
  by simp_all

lemma includes_lowerText_iff:
  assumes "kw \<noteq> []"
    and "\<forall>d \<in> set kw. d \<notin> {CHR ''k'', CHR 0xE2, CHR 0x84, CHR 0xAA}"
  shows "includes_str (lowerText text) kw \<longleftrightarrow>
         (\<exists>pre k post. text = pre @ k @ post \<and> toLowerCase k = kw)"
proof
  assume "includes_str (lowerText text) kw"
  then have "includes_str (toLowerCase text) kw" unfolding lowerText_def .
  then show "\<exists>pre k post. text = pre @ k @ post \<and> toLowerCase k = kw"
    using assms(2) by (rule includes_toLowerCase_segment)
next
  assume "\<exists>pre k post. text = pre @ k @ post \<and> toLowerCase k = kw"
  then obtain pre k post where "text = pre @ k @ post" "toLowerCase k = kw" by blast
  then show "includes_str (lowerText text) kw" using assms by (rule includes_lowerText)
qed

lemma startsWith_lowerText_iff:
  assumes "kw \<noteq> []"
    and "\<forall>d \<in> set kw. d \<notin> {CHR ''k'', CHR 0xE2, CHR 0x84, CHR 0xAA}"
  shows "startsWith (lowerText text) kw \<longleftrightarrow>
         (\<exists>k post. text = k @ post \<and> toLowerCase k = kw)"
proof
  assume "startsWith (lowerText text) kw"
  then have "startsWith (toLowerCase text) kw" unfolding lowerText_def .
  then show "\<exists>k post. text = k @ post \<and> toLowerCase k = kw"
    using assms(2) by (rule startsWith_toLowerCase_segment)
next
  assume "\<exists>k post. text = k @ post \<and> toLowerCase k = kw"
  then obtain k post where "text = k @ post" "toLowerCase k = kw" by blast
  then show "startsWith (lowerText text) kw" using assms by (rule startsWith_lowerText)
qed

lemma urgentKeyword_iff:
  "urgentKeyword text \<longleftrightarrow>
   (\<exists>pre k post. text = pre @ k @ post
      \<and> (toLowerCase k = ''urgente'' \<or> toLowerCase k = ''urgent''
         \<or> toLowerCase k = ''pra ontem''))"
proof -
  have a: "includes_str (lowerText text) ''urgente'' \<longleftrightarrow>
           (\<exists>pre k post. text = pre @ k @ post \<and> toLowerCase k = ''urgente'')"
    by (rule includes_lowerText_iff [OF _ keywords_plain(1)]) simp
  have b: "includes_str (lowerText text) ''urgent'' \<longleftrightarrow>
           (\<exists>pre k post. text = pre @ k @ post \<and> toLowerCase k = ''urgent'')"
    by (rule includes_lowerText_iff [OF _ keywords_plain(2)]) simp
  have c: "includes_str (lowerText text) ''pra ontem'' \<longleftrightarrow>
           (\<exists>pre k post. text = pre @ k @ post \<and> toLowerCase k = ''pra ontem'')"
    by (rule includes_lowerText_iff [OF _ keywords_plain(3)]) simp
  show ?thesis unfolding urgentKeyword_def a b c by blast
qed

lemma progressKeyword_iff:
  "progressKeyword text \<longleftrightarrow>
   (\<exists>k post. text = k @ post \<and> toLowerCase k = ''estou '')
   \<or> (\<exists>pre k post. text = pre @ k @ post
         \<and> (toLowerCase k = ''fazendo'' \<or> toLowerCase k = ''andamento''))"
proof -
  have a: "startsWith (lowerText text) ''estou '' \<longleftrightarrow>
           (\<exists>k post. text = k @ post \<and> toLowerCase k = ''estou '')"
    by (rule startsWith_lowerText_iff [OF _ keywords_plain(4)]) simp
  have b: "includes_str (lowerText text) ''fazendo'' \<longleftrightarrow>
           (\<exists>pre k post. text = pre @ k @ post \<and> toLowerCase k = ''fazendo'')"
    by (rule includes_lowerText_iff [OF _ keywords_plain(5)]) simp
  have c: "includes_str (lowerText text) ''andamento'' \<longleftrightarrow>
           (\<exists>pre k post. text = pre @ k @ post \<and> toLowerCase k = ''andamento'')"
    by (rule includes_lowerText_iff [OF _ keywords_plain(6)]) simp
  show ?thesis unfolding progressKeyword_def a b c by blast
qed

lemma urgentKeyword_intro:
  assumes "text = pre @ k @ post"
    and "toLowerCase k = ''urgente'' \<or> toLowerCase k = ''urgent'' \<or> toLowerCase k = ''pra ontem''"
  shows "urgentKeyword text"
  unfolding urgentKeyword_iff using assms by blast

lemma progressKeyword_intro:
  assumes "text = pre @ k @ post"
    and "(pre = [] \<and> toLowerCase k = ''estou '') \<or> toLowerCase k = ''fazendo''
         \<or> toLowerCase k = ''andamento''"
  shows "progressKeyword text"
proof -
  from assms(2) consider "pre = []" "toLowerCase k = ''estou ''"
    | "toLowerCase k = ''fazendo'' \<or> toLowerCase k = ''andamento''" by blast
  then show ?thesis
  proof cases
    case 1
    with assms(1) have "text = k @ post \<and> toLowerCase k = ''estou ''" by simp
    then show ?thesis unfolding progressKeyword_iff by blast
  next
    case 2
    with assms(1) show ?thesis unfolding progressKeyword_iff by blast
  qed
qed

lemma metadata_final_urgent:
  "urgentKeyword text \<Longrightarrow> priority (metadata_final text c) = Some ''urgent''"
  by (simp add: metadata_final_def overridePriority_def)

lemma finalPriority_urgent:
  "priority m = Some ''urgent'' \<Longrightarrow> finalPriority m = Some ''urgent''"
  by (simp add: finalPriority_def orNull_def truthy_def validPriorities_def Let_def  toLowerChar_def)

lemma finalPriority_invalid:
  assumes "case priority m of None \<Rightarrow> True
           | Some p \<Rightarrow> toLowerCase p \<notin> set [''low'', ''medium'', ''high'', ''urgent'']"
  shows "finalPriority m = None"
  using assms
  by (auto simp: finalPriority_def orNull_def truthy_def validPriorities_def Let_def
      split: option.splits)

lemma metadata_final_plain:
  "metadata c = Some m \<Longrightarrow> \<not> urgentKeyword text \<Longrightarrow> metadata_final text (Some c) = m"
  by (simp add: metadata_final_def metadata_initial_def overridePriority_def)


subsection \<open>Without a classification\<close>

lemma entryType_None: "entryType None = ''note''"
  by (simp add: entryType_def orElse_def truthy_def  toLowerChar_def)

lemma targetSlug_None: "targetSlug None = ''ideas''"
  by (simp add: targetSlug_def orElse_def truthy_def)

lemma finalEntryType_None: "finalEntryType None = ''note''"
  by (simp add: finalEntryType_def entryType_None validTypes_def)

lemma finalPriority_None:
  "finalPriority (metadata_final text None) =
   Some (if urgentKeyword text then ''urgent'' else ''medium'')"
  by (simp add: metadata_final_def metadata_initial_def metadata_default_def
      overridePriority_def finalPriority_def orNull_def truthy_def validPriorities_def Let_def  toLowerChar_def)

lemma finalStatus_None:
  "finalStatus text None = (if progressKeyword text then ''in_progress'' else ''pending'')"
  by (simp add: finalStatus_def orElse_def truthy_def validStatuses_def Let_def)

lemma insertPayload_None:
  "e_entry_type (insertPayload u text None cid) = ''note''"
  "e_priority (insertPayload u text None cid) =
     Some (if urgentKeyword text then ''urgent'' else ''medium'')"
  "e_status (insertPayload u text None cid) =
     (if progressKeyword text then ''in_progress'' else ''pending'')"
  by (simp_all add: insertPayload_def Let_def finalEntryType_None finalPriority_None
      finalStatus_None)

lemma mutationFn_unavailable:
  assumes "user env = Some u" and "fst (classify env text) = None"
  shows "submitted (mutationFn env text) =
           [SelectCategory ''ideas'',
            InsertEntry (insertPayload u text None
              (map_option cat_id (db_data (categories_select env ''ideas''))))]"
    and "outcome (mutationFn env text) =
           (case db_error (entries_insert env (insertPayload u text None
                   (map_option cat_id (db_data (categories_select env ''ideas''))))) of
              Some dbError \<Rightarrow> Inl dbError
            | None \<Rightarrow>
                Inr \<lparr>r_entry = db_data (entries_insert env (insertPayload u text None
                       (map_option cat_id (db_data (categories_select env ''ideas''))))),
                     r_type = ''entry'',
                     r_categoryName =
                       map_option cat_name (db_data (categories_select env ''ideas''))\<rparr>)"
  using assms
  by (simp_all add: mutationFn_user persist_regular entryType_None targetSlug_None
      cong: option.case_cong)


subsection \<open>Entry types and period types\<close>

lemma entryType_Some:
  "entry_type c = Some et \<Longrightarrow>
   entryType (Some c) = (if et = [] then ''note'' else toLowerCase et)"
  by (simp add: entryType_def orElse_def truthy_def  toLowerChar_def)

lemma finalEntryType_Some:
  assumes "entry_type c = Some et"
  shows "finalEntryType (Some c) =
         (if toLowerCase et \<in> set [''task'', ''note'', ''insight'', ''bookmark'']
          then toLowerCase et else ''note'')"
proof (cases "et = []")
  case True
  then show ?thesis using assms
    by (simp add: finalEntryType_def entryType_Some validTypes_def )
next
  case False
  then show ?thesis using assms
    by (simp add: finalEntryType_def entryType_Some validTypes_def)
qed

text \<open>
  The Kelvin sign is lowered to \<open>k\<close>, so a type spelt with it is accepted; a type that
  is no entry type in lower case becomes \<open>note\<close>.
\<close>

lemma finalEntryType_kelvin:
  "entry_type c = Some (''TAS'' @ [CHR 0xE2, CHR 0x84, CHR 0xAA]) \<Longrightarrow>
   finalEntryType (Some c) = ''task''"
  by (simp add: finalEntryType_def entryType_def orElse_def truthy_def validTypes_def
      toLowerChar_def)

lemma finalEntryType_reminder:
  "entry_type c = Some ''Reminder'' \<Longrightarrow> finalEntryType (Some c) = ''note''"
  by (simp add: finalEntryType_def entryType_def orElse_def truthy_def validTypes_def
      toLowerChar_def)

lemma goalPayload_period:
  "g_period_type (goalPayload u nw text c) = periodType (metadata_final text c)"
  "g_period_start (goalPayload u nw text c) =
     format (periodStart nw (periodType (metadata_final text c)))"
  "g_current (goalPayload u nw text c) = 0"
  by (simp_all add: goalPayload_def Let_def)

lemma periodType_eq:
  "periodType m =
     (if toLowerCase (orElse (period_type m) ''weekly'') \<in> set [''daily'', ''weekly'', ''monthly'']
      then toLowerCase (orElse (period_type m) ''weekly'') else ''weekly'')"
  by (simp add: periodType_def Let_def)


subsection \<open>The calendar\<close>

lemma div_step:
  fixes x k :: int
  assumes "0 < k"
  shows "x div k = (x - 1) div k + (if x mod k = 0 then 1 else 0)"
proof (cases "x mod k = 0")
  case True
  have "x = k * (x div k) + x mod k" by simp
  with True have "x = k * (x div k)" by simp
  then have "x - 1 = k * (x div k - 1) + (k - 1)"
    by (simp add: algebra_simps)
  from int_div_pos_eq [OF this] assms have "(x - 1) div k = x div k - 1"
    by simp
  with True show ?thesis by simp
next
  case False
  have "0 \<le> x mod k" "x mod k < k" using assms by auto
  with False have r: "0 \<le> x mod k - 1" "x mod k - 1 < k" by auto
  have "x - 1 = k * (x div k) + (x mod k - 1)" by (simp add: algebra_simps)
  from int_div_pos_eq [OF this r] have "(x - 1) div k = x div k" .
  with False show ?thesis by simp
qed

lemma mod_400_100: "(x::int) mod 400 = 0 \<Longrightarrow> x mod 100 = 0"
proof -
  assume "x mod 400 = 0"
  then have "400 dvd x" by (simp add: mod_eq_0_iff_dvd)
  moreover have "(100::int) dvd 400" by simp
  ultimately have "100 dvd x" by (rule dvd_trans [rotated])
  then show ?thesis by (simp add: mod_eq_0_iff_dvd)
qed

lemma mod_100_4: "(x::int) mod 100 = 0 \<Longrightarrow> x mod 4 = 0"
proof -
  assume "x mod 100 = 0"
  then have "100 dvd x" by (simp add: mod_eq_0_iff_dvd)
  moreover have "(4::int) dvd 100" by simp
  ultimately have "4 dvd x" by (rule dvd_trans [rotated])
  then show ?thesis by (simp add: mod_eq_0_iff_dvd)
qed

lemma leap_arith:
  fixes a a' b b' c c' x :: int
  assumes a: "a = a' + (if p4 then 1 else 0)"
    and b: "b = b' + (if p100 then 1 else 0)"
    and c: "c = c' + (if p400 then 1 else 0)"
    and "p400 \<Longrightarrow> p100"
    and "p100 \<Longrightarrow> p4"
  shows "365 * x + a - b + c =
         365 * (x - 1) + a' - b' + c' + (if p4 \<and> (\<not> p100 \<or> p400) then 366 else 365)"
proof -
  have "365 * x = 365 * (x - 1) + 365" by simp
  moreover have "(if p4 then 1 else 0) - (if p100 then 1 else 0) + (if p400 then 1 else (0::int))
     = (if p4 \<and> (\<not> p100 \<or> p400) then 1 else 0)"
    using assms(4,5) by (cases p4; cases p100; cases p400; simp)
  ultimately show ?thesis unfolding a b c by (simp split: if_splits)
qed

lemma daysBeforeYear_step:
  "daysBeforeYear y = daysBeforeYear (y - 1) + (if isLeap (y - 1) then 366 else 365)"
proof -
  define x where "x = y - 1"
  have d4: "x div 4 = (x - 1) div 4 + (if x mod 4 = 0 then 1 else 0)"
    by (rule div_step) simp
  have d100: "x div 100 = (x - 1) div 100 + (if x mod 100 = 0 then 1 else 0)"
    by (rule div_step) simp
  have d400: "x div 400 = (x - 1) div 400 + (if x mod 400 = 0 then 1 else 0)"
    by (rule div_step) simp
  have m1: "x mod 400 = 0 \<Longrightarrow> x mod 100 = 0" by (rule mod_400_100)
  have m2: "x mod 100 = 0 \<Longrightarrow> x mod 4 = 0" by (rule mod_100_4)
  have "365 * x + x div 4 - x div 100 + x div 400 =
        365 * (x - 1) + (x - 1) div 4 - (x - 1) div 100 + (x - 1) div 400
        + (if x mod 4 = 0 \<and> (\<not> x mod 100 = 0 \<or> x mod 400 = 0) then 366 else 365)"
    using d4 d100 d400 m1 m2 by (rule leap_arith)
  then have "365 * (y - 1) + (y - 1) div 4 - (y - 1) div 100 + (y - 1) div 400 =
        365 * (y - 1 - 1) + (y - 1 - 1) div 4 - (y - 1 - 1) div 100 + (y - 1 - 1) div 400
        + (if isLeap (y - 1) then 366 else 365)"
    unfolding isLeap_def x_def .
  then show ?thesis
    unfolding daysBeforeYear_def .
qed

lemma daysInMonth_bounds: "28 \<le> daysInMonth y m" "daysInMonth y m \<le> 31"
  by (auto simp: daysInMonth_def)

lemma daysBeforeMonth_step:
  assumes "2 \<le> m" and "m \<le> 12"
  shows "daysBeforeMonth y m = daysBeforeMonth y (m - 1) + daysInMonth y (m - 1)"
proof -
  from assms have "m = 2 \<or> m = 3 \<or> m = 4 \<or> m = 5 \<or> m = 6 \<or> m = 7 \<or> m = 8 \<or> m = 9
      \<or> m = 10 \<or> m = 11 \<or> m = 12"
    by arith
  then show ?thesis
    by (elim disjE) (simp_all add: daysBeforeMonth_def daysInMonth_def)
qed

lemma dayNumber_setDate:
  assumes "validDate d" and "- 27 \<le> n" and "n \<le> day d"
  shows "dayNumber (setDate d n) = dayNumber d - day d + n"
proof (cases "1 \<le> n")
  case True
  then show ?thesis by (simp add: setDate_def dayNumber_def)
next
  case below: False
  show ?thesis
  proof (cases "month d = 1")
    case True
    have "daysBeforeMonth (year d - 1) 12 + daysInMonth (year d - 1) 12 =
          (if isLeap (year d - 1) then 366 else 365)"
      by (simp add: daysBeforeMonth_def daysInMonth_def)
    then show ?thesis using below True daysBeforeYear_step [of "year d"]
      by (simp add: setDate_def dayNumber_def daysBeforeMonth_def)
  next
    case False
    with assms have "2 \<le> month d" "month d \<le> 12" by (auto simp: validDate_def)
    from daysBeforeMonth_step [OF this, of "year d"] show ?thesis using below False
      by (simp add: setDate_def dayNumber_def)
  qed
qed

lemma validDate_setDate:
  assumes "validDate d" and "- 27 \<le> n" and "n \<le> day d"
  shows "validDate (setDate d n)"
  using assms daysInMonth_bounds [of "year d - 1" 12]
    daysInMonth_bounds [of "year d" "month d - 1"]
  by (auto simp: validDate_def setDate_def)

lemma monday_mod:
  fixes dy N :: int
  assumes "N mod 7 = dy"
  shows "(N - ((if dy < 1 then 7 else 0) + dy - 1)) mod 7 = 1"
proof -
  define diff where "diff = (if dy < 1 then 7 else 0) + dy - 1"
  have dy: "0 \<le> dy" "dy < 7" using assms by auto
  have "(N - diff) mod 7 = (N mod 7 - diff) mod 7" by (simp add: mod_diff_left_eq)
  also have "\<dots> = (dy - diff) mod 7" using assms by simp
  also have "\<dots> = 1" using dy by (auto simp: diff_def)
  finally show ?thesis by (simp add: diff_def)
qed

lemma startOfWeek_monday:
  assumes "validDate d"
  shows "getDay (startOfWeek d 1) = 1"
    and "validDate (startOfWeek d 1)"
    and "0 \<le> dayNumber d - dayNumber (startOfWeek d 1)"
    and "dayNumber d - dayNumber (startOfWeek d 1) < 7"
proof -
  define dy where "dy = getDay d"
  define diff where "diff = (if dy < 1 then 7 else 0) + dy - 1"
  have dy: "0 \<le> dy" "dy < 7" by (simp_all add: dy_def getDay_def)
  then have diff: "0 \<le> diff" "diff \<le> 6" by (auto simp: diff_def)
  have sw: "startOfWeek d 1 = setDate d (day d - diff)"
    by (simp add: startOfWeek_def Let_def dy_def diff_def)
  from assms have "1 \<le> day d" by (simp add: validDate_def)
  with diff have rng: "- 27 \<le> day d - diff" "day d - diff \<le> day d" by auto
  have dn: "dayNumber (startOfWeek d 1) = dayNumber d - diff"
    using dayNumber_setDate [OF assms rng] by (simp add: sw)
  show "validDate (startOfWeek d 1)" using validDate_setDate [OF assms rng] by (simp add: sw)
  show "0 \<le> dayNumber d - dayNumber (startOfWeek d 1)" using dn diff by simp
  show "dayNumber d - dayNumber (startOfWeek d 1) < 7" using dn diff by simp
  have "dayNumber d mod 7 = dy" by (simp add: dy_def getDay_def)
  then have "(dayNumber d - diff) mod 7 = 1" unfolding diff_def by (rule monday_mod)
  then show "getDay (startOfWeek d 1) = 1" by (simp add: getDay_def dn)
qed

lemma startOfMonth_first: "startOfMonth d = d\<lparr>day := 1\<rparr>"
  by (simp add: startOfMonth_def setDate_def)

lemma format_example: "format \<lparr>year = 2026, month = 11, day = 1\<rparr> = ''2026-11-01''"
  by code_simp

lemma startOfWeek_example:
  "startOfWeek \<lparr>year = 2026, month = 11, day = 5\<rparr> 1 = \<lparr>year = 2026, month = 11, day = 2\<rparr>"
  by code_simp

lemma startOfWeek_example_february:
  "format (startOfWeek \<lparr>year = 2024, month = 3, day = 2\<rparr> 1) = ''2024-02-26''"
  by code_simp


subsection \<open>The object left behind by the normalisation\<close>

lemma overridePriority_twice:
  "overridePriority text (Some c') (overridePriority text (Some c) m) =
   overridePriority text (Some c) m"
  by (simp add: overridePriority_def)

lemma classification_after_fields:
  "Option.bind (classification_after text c) category_slug = Option.bind c category_slug"
  "Option.bind (classification_after text c) entry_type = Option.bind c entry_type"
  "Option.bind (classification_after text c) status = Option.bind c status"
  by (simp_all add: classification_after_def split: option.splits)

lemma classification_after_metadata:
  "metadata_final text (classification_after text c) = metadata_final text c"
proof (cases c)
  case None
  then show ?thesis by (simp add: classification_after_def)
next
  case (Some r)
  then show ?thesis
    by (cases "metadata r")
      (simp_all add: classification_after_def metadata_final_def metadata_initial_def
        overridePriority_twice)
qed

lemma classification_after_twice:
  "classification_after text (classification_after text c) = classification_after text c"
proof (cases c)
  case None
  then show ?thesis by (simp add: classification_after_def)
next
  case (Some r)
  then show ?thesis
    by (cases "metadata r") (simp_all add: classification_after_def overridePriority_twice)
qed

lemma classification_after_sanitised:
  "targetSlug (classification_after text c) = targetSlug c"
  "entryType (classification_after text c) = entryType c"
  "finalEntryType (classification_after text c) = finalEntryType c"
  "finalStatus text (classification_after text c) = finalStatus text c"
  by (simp_all add: targetSlug_def entryType_def finalEntryType_def finalStatus_def
      classification_after_fields)

lemma classification_after_payloads:
  "goalPayload u nw text (classification_after text c) = goalPayload u nw text c"
  "historyPayload u text (classification_after text c) = historyPayload u text c"
  "insertPayload u text (classification_after text c) cid = insertPayload u text c cid"
  by (simp_all add: goalPayload_def historyPayload_def insertPayload_def
      classification_after_metadata classification_after_sanitised)


subsection \<open>The example surroundings\<close>

lemma user_env_offline: "user env_offline = Some \<lparr>user_id = ''u1''\<rparr>"
  by (simp add: env_offline_def)

lemma classify_env_offline: "classify env_offline text = (None, [''Erro ao chamar IA: Failed to fetch''])"
  by (simp add: classify_def sdk_def fallback_def env_offline_def truthy_def orElse_def)

lemma user_env_answering: "user (env_answering c) = Some \<lparr>user_id = ''u1''\<rparr>"
  by (simp add: env_answering_def env_offline_def)

lemma classify_env_answering: "classify (env_answering c) text = (Some c, [])"
  by (simp add: classify_def sdk_def env_answering_def)

lemma not_urgent_anotar: "\<not> urgentKeyword ''anotar a receita do bolo''"
  by (simp add: urgentKeyword_def lowerText_def  toLowerChar_def)

lemma not_progress_anotar: "\<not> progressKeyword ''anotar a receita do bolo''"
  by (simp add: progressKeyword_def lowerText_def  toLowerChar_def)


section \<open>The claims of the specification\<close>

text \<open>
  C1. Whatever the text, the user, the classifier and the database do, every request
  that a run of \<open>mutationFn\<close> sends to the database carries only accepted values in its
  enum columns; and so do the payload of a regular entry, the payload of a goal and the
  payload of the companion entry of a goal, built from any classification, absent or
  with arbitrary strings.
\<close>

theorem enum_fields_accepted:
  "list_all accepted (submitted (mutationFn env text))
   \<and> accepted (InsertEntry (insertPayload u text c cid))
   \<and> accepted (InsertGoal (goalPayload u nw text c))
   \<and> accepted (InsertHistory (historyPayload u text c))"
proof -
  have "list_all accepted (submitted (mutationFn env text))"
  proof (cases "user env")
    case None
    then show ?thesis by (simp add: mutationFn_no_user)
  next
    case (Some v)
    then show ?thesis using accepted_persist by (simp add: mutationFn_user)
  qed
  then show ?thesis
    using accepted_insertPayload accepted_goalPayload accepted_historyPayload by simp
qed

text \<open>
  C2, as amended. When the text contains \<open>urgente\<close>, \<open>urgent\<close> or \<open>pra ontem\<close> in any
  letter case (a segment \<open>k\<close> of the text whose lower-case form is the keyword), the
  priority in the metadata is \<open>urgent\<close> for every classification, absent or not. When
  the capture is not classified as a goal, the entry that the run inserts has priority
  \<open>urgent\<close>. When it is classified as a goal, the companion entry carries the priority
  \<open>urgent\<close> inside its metadata, and no priority column is written.
\<close>

theorem urgent_keyword_forces_priority:
  assumes "text = pre @ k @ post"
    and "toLowerCase k = ''urgente'' \<or> toLowerCase k = ''urgent'' \<or> toLowerCase k = ''pra ontem''"
  shows "priority (metadata_final text c) = Some ''urgent''
       \<and> e_priority (insertPayload u text c cid) = Some ''urgent''
       \<and> priority (spread (h_metadata (historyPayload u text c))) = Some ''urgent''
       \<and> list_all (\<lambda>p. p = Some ''urgent'') (entryPriorities (submitted (mutationFn env text)))
       \<and> (user env \<noteq> None \<and> entryType (fst (classify env text)) \<noteq> ''goal''
            \<longrightarrow> entryPriorities (submitted (mutationFn env text)) = [Some ''urgent''])"
proof -
  have kw: "urgentKeyword text" using assms by (rule urgentKeyword_intro)
  have fp: "finalPriority (metadata_final text c') = Some ''urgent''" for c'
    using kw by (simp add: metadata_final_urgent finalPriority_urgent)
  have "list_all (\<lambda>p. p = Some ''urgent'') (entryPriorities (submitted (mutationFn env text)))"
  proof (cases "user env")
    case None
    then show ?thesis by (simp add: mutationFn_no_user entryPriorities_def)
  next
    case (Some v)
    then show ?thesis using fp by (simp add: mutationFn_user entryPriorities_persist)
  qed
  moreover have "entryPriorities (submitted (mutationFn env text)) = [Some ''urgent'']"
    if "user env \<noteq> None" "entryType (fst (classify env text)) \<noteq> ''goal''"
    using that fp by (auto simp: entryPriorities_regular)
  ultimately show ?thesis
    using kw fp by (simp add: metadata_final_urgent insertPayload_def historyPayload_def Let_def)
qed

theorem urgent_keyword_forces_priority_witness:
  "entryPriorities (submitted (mutationFn env_offline ''comprar leite URGENTE'')) = [Some ''urgent'']"
proof -
  have h1: "''comprar leite URGENTE'' = ''comprar leite '' @ ''URGENTE'' @ []" by simp
  have h2: "toLowerCase ''URGENTE'' = ''urgente'' \<or> toLowerCase ''URGENTE'' = ''urgent''
            \<or> toLowerCase ''URGENTE'' = ''pra ontem''"
    by (simp add:  toLowerChar_def)
  have h3: "user env_offline \<noteq> None
            \<and> entryType (fst (classify env_offline ''comprar leite URGENTE'')) \<noteq> ''goal''"
    by (simp add: user_env_offline classify_env_offline entryType_None)
  from urgent_keyword_forces_priority [OF h1 h2, where env = env_offline] h3
  show ?thesis by blast
qed

text \<open>
  C2 as first stated gives the resulting entry the priority \<open>urgent\<close> for every answer
  of the classifier. When the classifier answers \<open>goal\<close>, the only entry of the run is
  the companion entry, whose insert has no priority column: for a text that holds
  \<open>URGENTE\<close> the run sends a goal and its companion entry and no priority at all.
\<close>

theorem urgent_keyword_goal_counterexample:
  "urgentKeyword ''correr 10km URGENTE''
   \<and> submitted (mutationFn (env_answering example_goal) ''correr 10km URGENTE'') =
       [InsertGoal (goalPayload \<lparr>user_id = ''u1''\<rparr> \<lparr>year = 2026, month = 11, day = 5\<rparr>
          ''correr 10km URGENTE'' (Some example_goal)),
        InsertHistory (historyPayload \<lparr>user_id = ''u1''\<rparr> ''correr 10km URGENTE''
          (Some example_goal))]
   \<and> entryPriorities (submitted (mutationFn (env_answering example_goal) ''correr 10km URGENTE''))
       = []"
proof -
  have k: "urgentKeyword ''correr 10km URGENTE''"
    by (simp add: urgentKeyword_def lowerText_def toLowerChar_def)
  have t: "entryType (Some example_goal) = ''goal''"
    by (simp add: entryType_def example_goal_def orElse_def truthy_def toLowerChar_def)
  have n: "now (env_answering example_goal) = \<lparr>year = 2026, month = 11, day = 5\<rparr>"
    by (simp add: env_answering_def env_offline_def)
  have g: "db_error (goals_insert (env_answering example_goal) p) = None" for p
    by (simp add: env_answering_def env_offline_def)
  have s: "submitted (mutationFn (env_answering example_goal) ''correr 10km URGENTE'') =
       [InsertGoal (goalPayload \<lparr>user_id = ''u1''\<rparr> \<lparr>year = 2026, month = 11, day = 5\<rparr>
          ''correr 10km URGENTE'' (Some example_goal)),
        InsertHistory (historyPayload \<lparr>user_id = ''u1''\<rparr> ''correr 10km URGENTE''
          (Some example_goal))]"
    using t by (simp add: mutationFn_user [OF user_env_answering] classify_env_answering
        persist_goal n g)
  show ?thesis using k by (simp add: s entryPriorities_def)
qed

text \<open>
  C3, as amended. When no classification is available, a run for a signed-in user looks
  up the category \<open>ideas\<close> and inserts one entry of type \<open>note\<close>; its priority is
  \<open>medium\<close> unless the text holds an urgency keyword, and then \<open>urgent\<close>; its status is
  \<open>pending\<close> unless the text holds a progress keyword, and then \<open>in_progress\<close>.
\<close>

theorem unavailable_classification_defaults:
  assumes "user env = Some u" and "fst (classify env text) = None"
  shows "submitted (mutationFn env text) =
           [SelectCategory ''ideas'',
            InsertEntry (insertPayload u text None
              (map_option cat_id (db_data (categories_select env ''ideas''))))]
       \<and> e_entry_type (insertPayload u text None cid) = ''note''
       \<and> e_priority (insertPayload u text None cid) =
           Some (if urgentKeyword text then ''urgent'' else ''medium'')
       \<and> e_status (insertPayload u text None cid) =
           (if progressKeyword text then ''in_progress'' else ''pending'')"
  using mutationFn_unavailable(1) [OF assms] by (simp add: insertPayload_None)

theorem unavailable_classification_defaults_witness:
  "submitted (mutationFn env_offline ''anotar a receita do bolo'') =
     [SelectCategory ''ideas'',
      InsertEntry (insertPayload \<lparr>user_id = ''u1''\<rparr> ''anotar a receita do bolo'' None
        (Some ''id-ideas''))]
   \<and> e_entry_type (insertPayload \<lparr>user_id = ''u1''\<rparr> ''anotar a receita do bolo'' None
        (Some ''id-ideas'')) = ''note''
   \<and> e_priority (insertPayload \<lparr>user_id = ''u1''\<rparr> ''anotar a receita do bolo'' None
        (Some ''id-ideas'')) = Some ''medium''
   \<and> e_status (insertPayload \<lparr>user_id = ''u1''\<rparr> ''anotar a receita do bolo'' None
        (Some ''id-ideas'')) = ''pending''"
proof -
  have h1: "user env_offline = Some \<lparr>user_id = ''u1''\<rparr>" by (rule user_env_offline)
  have h2: "fst (classify env_offline ''anotar a receita do bolo'') = None"
    by (simp add: classify_env_offline)
  have h3: "map_option cat_id (db_data (categories_select env_offline ''ideas'')) = Some ''id-ideas''"
    by (simp add: env_offline_def example_categories_def)
  from unavailable_classification_defaults [OF h1 h2, of "Some ''id-ideas''"]
  show ?thesis by (simp add: h3 not_urgent_anotar not_progress_anotar)
qed

text \<open>
  C3 as first stated asks for priority \<open>medium\<close> and status \<open>pending\<close> for every text.
  With both transports down, a text that holds \<open>urgente\<close> and starts with \<open>estou \<close> is
  saved with priority \<open>urgent\<close> and status \<open>in_progress\<close>.
\<close>

theorem unavailable_classification_counterexample:
  "fst (classify env_offline ''estou fazendo o relatorio urgente'') = None
   \<and> entryPriorities (submitted (mutationFn env_offline ''estou fazendo o relatorio urgente''))
     = [Some ''urgent'']
   \<and> entryStatuses (submitted (mutationFn env_offline ''estou fazendo o relatorio urgente''))
     = [''in_progress'']"
proof -
  have k1: "urgentKeyword ''estou fazendo o relatorio urgente''"
    by (simp add: urgentKeyword_def lowerText_def  toLowerChar_def)
  have k2: "progressKeyword ''estou fazendo o relatorio urgente''"
    by (simp add: progressKeyword_def lowerText_def  toLowerChar_def)
  have c: "fst (classify env_offline ''estou fazendo o relatorio urgente'') = None"
    by (simp add: classify_env_offline)
  show ?thesis
    using k1 k2
    by (simp add: c mutationFn_user [OF user_env_offline] entryPriorities_persist
        entryStatuses_persist entryType_None finalPriority_None finalStatus_None)
qed

text \<open>
  C4, as amended. When the classification carries a metadata object whose priority is
  missing or, in lower case, none of \<open>low\<close>, \<open>medium\<close>, \<open>high\<close>, \<open>urgent\<close>, and the
  text holds no urgency keyword, the priority column of the entry is \<open>null\<close>.
\<close>

theorem invalid_priority_becomes_null:
  assumes "metadata c = Some m"
    and "\<not> urgentKeyword text"
    and "case priority m of None \<Rightarrow> True
         | Some p \<Rightarrow> toLowerCase p \<notin> set [''low'', ''medium'', ''high'', ''urgent'']"
  shows "finalPriority (metadata_final text (Some c)) = None
       \<and> e_priority (insertPayload u text (Some c) cid) = None
       \<and> (user env \<noteq> None \<and> fst (classify env text) = Some c \<and> entryType (Some c) \<noteq> ''goal''
            \<longrightarrow> entryPriorities (submitted (mutationFn env text)) = [None])"
proof -
  have fp: "finalPriority (metadata_final text (Some c)) = None"
    using assms by (simp add: metadata_final_plain finalPriority_invalid)
  moreover have "entryPriorities (submitted (mutationFn env text)) = [None]"
    if "user env \<noteq> None" "fst (classify env text) = Some c" "entryType (Some c) \<noteq> ''goal''"
    using that fp by (auto simp: entryPriorities_regular)
  ultimately show ?thesis by (simp add: insertPayload_def Let_def)
qed

theorem invalid_priority_becomes_null_witness:
  "entryPriorities (submitted (mutationFn (env_answering example_asap) ''pagar a conta de luz''))
   = [None]"
proof -
  have h1: "metadata example_asap = Some (example_metadata\<lparr>priority := Some ''ASAP''\<rparr>)"
    by (simp add: example_asap_def)
  have h2: "\<not> urgentKeyword ''pagar a conta de luz''"
    by (simp add: urgentKeyword_def lowerText_def  toLowerChar_def)
  have h3: "case priority (example_metadata\<lparr>priority := Some ''ASAP''\<rparr>) of None \<Rightarrow> True
            | Some p \<Rightarrow> toLowerCase p \<notin> set [''low'', ''medium'', ''high'', ''urgent'']"
    by (simp add:  toLowerChar_def)
  have h4: "user (env_answering example_asap) \<noteq> None
      \<and> fst (classify (env_answering example_asap) ''pagar a conta de luz'') = Some example_asap
      \<and> entryType (Some example_asap) \<noteq> ''goal''"
    by (simp add: user_env_answering classify_env_answering entryType_def example_asap_def
        orElse_def truthy_def  toLowerChar_def)
  from invalid_priority_becomes_null [OF h1 h2 h3, where env = "env_answering example_asap"] h4
  show ?thesis by blast
qed

text \<open>
  C4 as first stated covers every text and every answer of the classifier. An answer
  with priority \<open>ASAP\<close> for a text that holds \<open>urgente\<close> is saved with priority
  \<open>urgent\<close>, and an answer without a metadata object is saved with the priority
  \<open>medium\<close> of the default metadata.
\<close>

theorem invalid_priority_counterexample:
  "priority (the (metadata example_asap)) = Some ''ASAP''
   \<and> entryPriorities (submitted (mutationFn (env_answering example_asap) ''pagar a conta urgente''))
     = [Some ''urgent'']
   \<and> metadata example_bare = None
   \<and> entryPriorities (submitted (mutationFn (env_answering example_bare) ''pagar a conta''))
     = [Some ''medium'']"
proof -
  have k1: "urgentKeyword ''pagar a conta urgente''"
    by (simp add: urgentKeyword_def lowerText_def  toLowerChar_def)
  have k2: "\<not> urgentKeyword ''pagar a conta''"
    by (simp add: urgentKeyword_def lowerText_def  toLowerChar_def)
  have t1: "entryType (Some example_asap) \<noteq> ''goal''"
    by (simp add: entryType_def example_asap_def orElse_def truthy_def 
        toLowerChar_def)
  have t2: "entryType (Some example_bare) \<noteq> ''goal''"
    by (simp add: entryType_def example_bare_def orElse_def truthy_def 
        toLowerChar_def)
  have p1: "finalPriority (metadata_final ''pagar a conta urgente'' (Some example_asap))
            = Some ''urgent''"
    using k1 by (simp add: metadata_final_urgent finalPriority_urgent)
  have p2: "finalPriority (metadata_final ''pagar a conta'' (Some example_bare)) = Some ''medium''"
    using k2
    by (simp add: metadata_final_def metadata_initial_def metadata_default_def
        overridePriority_def example_bare_def finalPriority_def orNull_def truthy_def
        validPriorities_def Let_def  toLowerChar_def)
  show ?thesis
    using t1 t2 p1 p2
    by (simp add: mutationFn_user [OF user_env_answering] classify_env_answering
        entryPriorities_persist example_asap_def example_bare_def)
qed

text \<open>
  C5. The entry type of the classifier is put into lower case before it is checked: a
  type whose lower-case form is one of \<open>task\<close>, \<open>note\<close>, \<open>insight\<close>, \<open>bookmark\<close> is
  kept in that form (\<open>BOOKMARK\<close> as \<open>bookmark\<close>), every other type becomes \<open>note\<close>;
  every string has a result. A run for a signed-in user whose classifier answered a
  type other than \<open>goal\<close> inserts one entry of exactly that sanitised type.
\<close>

theorem entry_type_sanitised:
  assumes "entry_type c = Some et"
  shows "finalEntryType (Some c) =
           (if toLowerCase et \<in> set [''task'', ''note'', ''insight'', ''bookmark'']
            then toLowerCase et else ''note'')
       \<and> (user env \<noteq> None \<and> fst (classify env text) = Some c \<and> toLowerCase et \<noteq> ''goal''
            \<longrightarrow> entryTypes (submitted (mutationFn env text)) =
                  [if toLowerCase et \<in> set [''task'', ''note'', ''insight'', ''bookmark'']
                   then toLowerCase et else ''note''])"
proof -
  have "entryTypes (submitted (mutationFn env text)) = [finalEntryType (Some c)]"
    if "user env \<noteq> None" "fst (classify env text) = Some c" "toLowerCase et \<noteq> ''goal''"
  proof -
    have "entryType (Some c) \<noteq> ''goal''"
      using assms that(3) by (simp add: entryType_Some)
    then show ?thesis using that by (auto simp: mutationFn_user entryTypes_persist)
  qed
  then show ?thesis using finalEntryType_Some [OF assms] by simp
qed

theorem entry_type_sanitised_witness:
  "finalEntryType (Some example_bookmark) = ''bookmark''
   \<and> entryTypes (submitted (mutationFn (env_answering example_bookmark) ''https://isabelle.in.tum.de''))
     = [''bookmark'']"
proof -
  have h1: "entry_type example_bookmark = Some ''BOOKMARK''" by (simp add: example_bookmark_def)
  have h2: "toLowerCase ''BOOKMARK'' = ''bookmark''" by (simp add:  toLowerChar_def)
  have h3: "user (env_answering example_bookmark) \<noteq> None
      \<and> fst (classify (env_answering example_bookmark) ''https://isabelle.in.tum.de'')
        = Some example_bookmark"
    by (simp add: user_env_answering classify_env_answering)
  from entry_type_sanitised
      [OF h1, of "env_answering example_bookmark" "''https://isabelle.in.tum.de''"] h2 h3
  show ?thesis by simp
qed

text \<open>
  C6. When the entry type is \<open>goal\<close>, a run for a signed-in user first inserts a goal
  with \<open>current = 0\<close>, a period type that is the lower-case period type of the metadata
  if that is \<open>daily\<close>, \<open>weekly\<close> or \<open>monthly\<close> and \<open>weekly\<close> otherwise, and a period
  start that is the printed Monday of the current week for \<open>weekly\<close> (a valid date, a
  Monday, at most six days before today), the first day of the current month for
  \<open>monthly\<close> and today for \<open>daily\<close>. When the database reports no error for the goal,
  the companion entry follows: type \<open>task\<close>, status \<open>pending\<close>, the metadata with
  \<open>is_goal_trigger\<close> set.
\<close>

theorem goal_capture:
  assumes "user env = Some u"
    and "fst (classify env text) = c"
    and "entryType c = ''goal''"
    and "validDate (now env)"
  shows "(let gp = goalPayload u (now env) text c;
              hp = historyPayload u text c;
              pt = toLowerCase (orElse (period_type (metadata_final text c)) ''weekly'');
              monday = startOfWeek (now env) 1
          in submitted (mutationFn env text) =
               InsertGoal gp
               # (case db_error (goals_insert env gp) of
                    Some goalError \<Rightarrow> []
                  | None \<Rightarrow> [InsertHistory hp])
           \<and> g_current gp = 0
           \<and> g_period_type gp \<in> set [''daily'', ''weekly'', ''monthly'']
           \<and> g_period_type gp =
               (if pt \<in> set [''daily'', ''weekly'', ''monthly''] then pt else ''weekly'')
           \<and> g_period_start gp =
               format (if g_period_type gp = ''weekly'' then monday
                       else if g_period_type gp = ''monthly'' then (now env)\<lparr>day := 1\<rparr>
                       else now env)
           \<and> getDay monday = 1
           \<and> validDate monday
           \<and> 0 \<le> dayNumber (now env) - dayNumber monday
           \<and> dayNumber (now env) - dayNumber monday < 7
           \<and> h_entry_type hp = ''task''
           \<and> h_status hp = ''pending''
           \<and> is_goal_trigger (h_metadata hp)
           \<and> spread (h_metadata hp) = metadata_final text c)"
proof -
  have sub: "submitted (mutationFn env text) =
        InsertGoal (goalPayload u (now env) text c)
        # (case db_error (goals_insert env (goalPayload u (now env) text c)) of
             Some goalError \<Rightarrow> []
           | None \<Rightarrow> [InsertHistory (historyPayload u text c)])"
    using assms(1,2,3) by (simp add: mutationFn_user persist_goal)
  have pt: "g_period_type (goalPayload u (now env) text c) \<in> set [''daily'', ''weekly'', ''monthly'']"
    using periodType_valid [of "metadata_final text c"] by (simp add: goalPayload_period)
  have ps: "g_period_start (goalPayload u (now env) text c) =
        format (if g_period_type (goalPayload u (now env) text c) = ''weekly''
                then startOfWeek (now env) 1
                else if g_period_type (goalPayload u (now env) text c) = ''monthly''
                then (now env)\<lparr>day := 1\<rparr>
                else now env)"
    by (simp add: goalPayload_period periodStart_def startOfMonth_first)
  have hp: "h_entry_type (historyPayload u text c) = ''task''"
    "h_status (historyPayload u text c) = ''pending''"
    "is_goal_trigger (h_metadata (historyPayload u text c))"
    "spread (h_metadata (historyPayload u text c)) = metadata_final text c"
    by (simp_all add: historyPayload_def Let_def)
  show ?thesis
    unfolding Let_def
    using sub pt ps hp startOfWeek_monday [OF assms(4)]
      periodType_eq [of "metadata_final text c"]
    by (simp only: goalPayload_period simp_thms)
qed

theorem goal_capture_witness:
  "submitted (mutationFn (env_answering example_goal) ''correr 10km por mes'') =
     [InsertGoal (goalPayload \<lparr>user_id = ''u1''\<rparr> \<lparr>year = 2026, month = 11, day = 5\<rparr>
        ''correr 10km por mes'' (Some example_goal)),
      InsertHistory (historyPayload \<lparr>user_id = ''u1''\<rparr> ''correr 10km por mes''
        (Some example_goal))]
   \<and> g_period_type (goalPayload \<lparr>user_id = ''u1''\<rparr> \<lparr>year = 2026, month = 11, day = 5\<rparr>
        ''correr 10km por mes'' (Some example_goal)) = ''monthly''
   \<and> g_period_start (goalPayload \<lparr>user_id = ''u1''\<rparr> \<lparr>year = 2026, month = 11, day = 5\<rparr>
        ''correr 10km por mes'' (Some example_goal)) = ''2026-11-01''
   \<and> g_current (goalPayload \<lparr>user_id = ''u1''\<rparr> \<lparr>year = 2026, month = 11, day = 5\<rparr>
        ''correr 10km por mes'' (Some example_goal)) = 0
   \<and> getDay (startOfWeek \<lparr>year = 2026, month = 11, day = 5\<rparr> 1) = 1"
proof -
  have h1: "user (env_answering example_goal) = Some \<lparr>user_id = ''u1''\<rparr>"
    by (rule user_env_answering)
  have h2: "fst (classify (env_answering example_goal) ''correr 10km por mes'') = Some example_goal"
    by (simp add: classify_env_answering)
  have h3: "entryType (Some example_goal) = ''goal''"
    by (simp add: entryType_def example_goal_def orElse_def truthy_def 
        toLowerChar_def)
  have n: "now (env_answering example_goal) = \<lparr>year = 2026, month = 11, day = 5\<rparr>"
    by (simp add: env_answering_def env_offline_def)
  have h4: "validDate (now (env_answering example_goal))"
    by (simp add: n validDate_def daysInMonth_def)
  have g: "db_error (goals_insert (env_answering example_goal) p) = None" for p
    by (simp add: env_answering_def env_offline_def)
  have k: "\<not> urgentKeyword ''correr 10km por mes''"
    by (simp add: urgentKeyword_def lowerText_def  toLowerChar_def)
  have pt: "toLowerCase (orElse (period_type (metadata_final ''correr 10km por mes''
              (Some example_goal))) ''weekly'') = ''monthly''"
    using k
    by (simp add: metadata_final_def metadata_initial_def overridePriority_def example_goal_def
        orElse_def truthy_def  toLowerChar_def)
  from goal_capture [OF h1 h2 h3 h4]
  show ?thesis
    by (simp add: Let_def n g pt format_example)
qed

text \<open>
  C7. When the text starts with \<open>estou \<close> or contains \<open>fazendo\<close> or \<open>andamento\<close>, in
  any letter case, the status is \<open>in_progress\<close> whatever status the classifier gave:
  for the variable \<open>finalStatus\<close>, for the payload of a regular entry, and for every
  regular entry that a run of \<open>mutationFn\<close> inserts.
\<close>

theorem progress_keyword_forces_status:
  assumes "text = pre @ k @ post"
    and "(pre = [] \<and> toLowerCase k = ''estou '') \<or> toLowerCase k = ''fazendo''
         \<or> toLowerCase k = ''andamento''"
  shows "finalStatus text c = ''in_progress''
       \<and> e_status (insertPayload u text c cid) = ''in_progress''
       \<and> list_all (\<lambda>s. s = ''in_progress'') (entryStatuses (submitted (mutationFn env text)))
       \<and> (user env \<noteq> None \<and> entryType (fst (classify env text)) \<noteq> ''goal''
            \<longrightarrow> entryStatuses (submitted (mutationFn env text)) = [''in_progress''])"
proof -
  have kw: "progressKeyword text" using assms by (rule progressKeyword_intro)
  have fs: "finalStatus text c' = ''in_progress''" for c'
    using kw by (simp add: finalStatus_def Let_def)
  have "list_all (\<lambda>s. s = ''in_progress'') (entryStatuses (submitted (mutationFn env text)))"
  proof (cases "user env")
    case None
    then show ?thesis by (simp add: mutationFn_no_user entryStatuses_def)
  next
    case (Some v)
    then show ?thesis using fs by (simp add: mutationFn_user entryStatuses_persist)
  qed
  moreover have "entryStatuses (submitted (mutationFn env text)) = [''in_progress'']"
    if "user env \<noteq> None" "entryType (fst (classify env text)) \<noteq> ''goal''"
    using that fs by (auto simp: mutationFn_user entryStatuses_persist)
  ultimately show ?thesis
    using fs by (simp add: insertPayload_def Let_def)
qed

theorem progress_keyword_forces_status_witness:
  "entryStatuses (submitted (mutationFn (env_answering example_done) ''Estou lendo o livro''))
   = [''in_progress'']"
proof -
  have h1: "''Estou lendo o livro'' = [] @ ''Estou '' @ ''lendo o livro''" by simp
  have h2: "([] = ([]::string) \<and> toLowerCase ''Estou '' = ''estou '')
            \<or> toLowerCase ''Estou '' = ''fazendo'' \<or> toLowerCase ''Estou '' = ''andamento''"
    by (simp add:  toLowerChar_def)
  have h3: "user (env_answering example_done) \<noteq> None
            \<and> entryType (fst (classify (env_answering example_done) ''Estou lendo o livro''))
              \<noteq> ''goal''"
    by (simp add: user_env_answering classify_env_answering entryType_def example_done_def
        orElse_def truthy_def  toLowerChar_def)
  from progress_keyword_forces_status [OF h1 h2, where env = "env_answering example_done"] h3
  show ?thesis by blast
qed

text \<open>
  C8. When the SDK call fails (it rejects or answers with an error) and the raw fetch
  fails too (no key, a rejection, a status that is not ok, a body that does not parse),
  the classification is \<open>null\<close> and one toast is shown. The run of a signed-in user
  goes on: it looks up the category \<open>ideas\<close> and inserts the entry built from the
  defaults. The promise is rejected only with an error of that insert; neither error of
  the classifier reaches the outcome.
\<close>

theorem classifier_failure_recovered:
  assumes "user env = Some u"
    and "sdk env text = Inl err"
    and "fallback env text = Inl fallbackErr"
  shows "classify env text =
           (None, [''Erro ao chamar IA: '' @ orElse (message err) ''Erro de rede''])
       \<and> submitted (mutationFn env text) =
           [SelectCategory ''ideas'',
            InsertEntry (insertPayload u text None
              (map_option cat_id (db_data (categories_select env ''ideas''))))]
       \<and> outcome (mutationFn env text) =
           (case db_error (entries_insert env (insertPayload u text None
                   (map_option cat_id (db_data (categories_select env ''ideas''))))) of
              Some dbError \<Rightarrow> Inl dbError
            | None \<Rightarrow>
                Inr \<lparr>r_entry = db_data (entries_insert env (insertPayload u text None
                       (map_option cat_id (db_data (categories_select env ''ideas''))))),
                     r_type = ''entry'',
                     r_categoryName =
                       map_option cat_name (db_data (categories_select env ''ideas''))\<rparr>)
       \<and> toasts (mutationFn env text) =
           [''Erro ao chamar IA: '' @ orElse (message err) ''Erro de rede'']"
proof -
  have c: "classify env text =
           (None, [''Erro ao chamar IA: '' @ orElse (message err) ''Erro de rede''])"
    using assms(2,3) by (rule classify_both_fail)
  then have n: "fst (classify env text) = None" by simp
  have t: "toasts (mutationFn env text) =
           [''Erro ao chamar IA: '' @ orElse (message err) ''Erro de rede'']"
    using assms(1) c
    by (simp add: mutationFn_def Let_def persist_def entryType_None split: option.splits)
  show ?thesis
    using c t mutationFn_unavailable [OF assms(1) n] by simp
qed

theorem classifier_failure_recovered_witness:
  "outcome (mutationFn env_offline ''comprar leite'') =
     Inr \<lparr>r_entry = Some ''entry row'', r_type = ''entry'', r_categoryName = Some ''ideas''\<rparr>
   \<and> toasts (mutationFn env_offline ''comprar leite'') = [''Erro ao chamar IA: Failed to fetch'']"
proof -
  have h2: "sdk env_offline ''comprar leite'' = Inl (JsError (Some ''Failed to fetch''))"
    by (simp add: sdk_def env_offline_def)
  have h3: "fallback env_offline ''comprar leite'' = Inl (JsError (Some ''Failed to fetch''))"
    by (simp add: fallback_def env_offline_def truthy_def)
  from classifier_failure_recovered [OF user_env_offline h2 h3]
  show ?thesis
    by (simp add: env_offline_def example_categories_def orElse_def truthy_def)
qed

text \<open>
  C9. Normalising a classification leaves an object behind (the assignment to
  \<open>metadata.priority\<close> writes into it). Normalising that object again, with the same
  text, gives the same sanitised values and leaves the same object; and the run after
  the classification sends the same requests and has the same outcome for the object
  before and after.
\<close>

theorem normalization_idempotent:
  "normalize text (fst (normalize text c)) = normalize text c
   \<and> persist env u text (fst (normalize text c)) = persist env u text c"
proof -
  have "normalize text (classification_after text c) = normalize text c"
    by (simp add: normalize_def classification_after_twice classification_after_metadata
        classification_after_sanitised)
  moreover have "persist env u text (classification_after text c) = persist env u text c"
    by (simp add: persist_def Let_def classification_after_payloads
        classification_after_sanitised cong: option.case_cong)
  ultimately show ?thesis by (simp add: normalize_def)
qed

text \<open>
  C10. In a goal capture the error of the insert into \<open>goals\<close> is thrown, and the
  answer of the insert of the companion entry is not read: whatever that insert answers
  (\<open>h\<close> is any behaviour of it, an error included), the outcome is the error of the goal
  insert if there is one and the success value with the goal row otherwise, and the
  companion entry has been sent.
\<close>

theorem companion_error_ignored:
  assumes "user env = Some u"
    and "fst (classify env text) = c"
    and "entryType c = ''goal''"
  shows "outcome (mutationFn (env\<lparr>history_insert := h\<rparr>) text) =
           (case db_error (goals_insert env (goalPayload u (now env) text c)) of
              Some goalError \<Rightarrow> Inl goalError
            | None \<Rightarrow>
                Inr \<lparr>r_entry = db_data (goals_insert env (goalPayload u (now env) text c)),
                     r_type = ''goal'',
                     r_categoryName =
                       Some (goalCategoryName (g_period_type (goalPayload u (now env) text c)))\<rparr>)
       \<and> submitted (mutationFn (env\<lparr>history_insert := h\<rparr>) text) =
           InsertGoal (goalPayload u (now env) text c)
           # (case db_error (goals_insert env (goalPayload u (now env) text c)) of
                Some goalError \<Rightarrow> []
              | None \<Rightarrow> [InsertHistory (historyPayload u text c)])"
proof -
  have u: "user (env\<lparr>history_insert := h\<rparr>) = Some u" using assms(1) by simp
  have c: "fst (classify (env\<lparr>history_insert := h\<rparr>) text) = c"
    using assms(2) by (simp add: classify_history_insert)
  show ?thesis
    using assms(3)
    by (simp add: mutationFn_user [OF u] c persist_goal cong: option.case_cong)
qed

theorem companion_error_ignored_witness:
  "outcome (mutationFn
      ((env_answering example_goal)
         \<lparr>history_insert :=
            (\<lambda>p. \<lparr>db_data = None, db_error = Some (JsError (Some ''check constraint''))\<rparr>)\<rparr>)
      ''correr 10km por mes'')
   = Inr \<lparr>r_entry = Some ''goal row'', r_type = ''goal'', r_categoryName = Some ''Meta Mensal''\<rparr>"
proof -
  have h1: "user (env_answering example_goal) = Some \<lparr>user_id = ''u1''\<rparr>"
    by (rule user_env_answering)
  have h2: "fst (classify (env_answering example_goal) ''correr 10km por mes'') = Some example_goal"
    by (simp add: classify_env_answering)
  have h3: "entryType (Some example_goal) = ''goal''"
    by (simp add: entryType_def example_goal_def orElse_def truthy_def 
        toLowerChar_def)
  have g: "goals_insert (env_answering example_goal) p =
           \<lparr>db_data = Some ''goal row'', db_error = None\<rparr>" for p
    by (simp add: env_answering_def env_offline_def)
  have k: "\<not> urgentKeyword ''correr 10km por mes''"
    by (simp add: urgentKeyword_def lowerText_def  toLowerChar_def)
  have pt: "periodType (metadata_final ''correr 10km por mes'' (Some example_goal)) = ''monthly''"
    using k
    by (simp add: periodType_def Let_def metadata_final_def metadata_initial_def
        overridePriority_def example_goal_def orElse_def truthy_def 
        toLowerChar_def)
  from companion_error_ignored [OF h1 h2 h3]
  show ?thesis
    by (simp add: g goalPayload_period pt goalCategoryName_def)
qed

end
